theory Spec2Isabelle
  imports Complex_Main "HOL-Library.AList"
begin

section \<open>Numbers of the host language\<close>

text \<open>
  The invoice builder computes with the numbers of its host language, IEEE 754 binary64
  values. \<open>Num x\<close> is the finite double of value \<open>x\<close>, \<open>PInf\<close> and \<open>NInf\<close> are the
  two infinities and \<open>NaN\<close> is not-a-number. The two zeros are one value here: nothing
  the program does tells them apart (both are falsy, both print as \<open>0\<close>, and the only
  division is by 100). Every arithmetic result is rounded to the nearest double, ties to
  the even significand, and a result of magnitude \<open>2\<^sup>1\<^sup>0\<^sup>2\<^sup>4\<close> or more is an
  infinity. The doubles are the reals that \<open>round64\<close> below leaves as they are.
\<close>

datatype jsnum = Num real | PInf | NInf | NaN

text \<open>The binary exponent \<open>\<lfloor>log\<^sub>2 x\<rfloor>\<close> of a positive number, by halving or doubling.\<close>

function bexp_up :: "real \<Rightarrow> int" where
  "bexp_up x = (if 2 \<le> x then bexp_up (x / 2) + 1 else 0)"
  by pat_completeness auto
termination
proof (relation "measure (\<lambda>x. nat \<lfloor>x\<rfloor>)")
  show "wf (measure (\<lambda>x::real. nat \<lfloor>x\<rfloor>))" by simp
next
  fix x :: real
  assume "2 \<le> x"
  moreover have "x - 1 < of_int \<lfloor>x\<rfloor>" by linarith
  ultimately have "x / 2 < of_int \<lfloor>x\<rfloor>" by linarith
  then have lt: "\<lfloor>x / 2\<rfloor> < \<lfloor>x\<rfloor>" by (simp only: floor_less_iff)
  have "1 \<le> \<lfloor>x\<rfloor>" using \<open>2 \<le> x\<close> by linarith
  with lt have "nat \<lfloor>x / 2\<rfloor> < nat \<lfloor>x\<rfloor>" by linarith
  then show "(x / 2, x) \<in> measure (\<lambda>x. nat \<lfloor>x\<rfloor>)" by (simp only: in_measure)
qed

function bexp_down :: "real \<Rightarrow> int" where
  "bexp_down x = (if 0 < x \<and> x < 1 then bexp_down (x * 2) - 1 else 0)"
  by pat_completeness auto
termination
proof (relation "measure (\<lambda>x. nat \<lfloor>1 / x\<rfloor>)")
  show "wf (measure (\<lambda>x::real. nat \<lfloor>1 / x\<rfloor>))" by simp
next
  fix x :: real
  assume a: "0 < x \<and> x < 1"
  then have one: "1 \<le> 1 / x" by simp
  define y where "y = 1 / x"
  have pos: "1 \<le> \<lfloor>y\<rfloor>" using one by (simp add: y_def le_floor_iff)
  have up: "y - 1 < of_int \<lfloor>y\<rfloor>" by linarith
  have "y / 2 < of_int \<lfloor>y\<rfloor>"
  proof (cases "y < 2")
    case True
    then have "y / 2 < 1" by linarith
    also have "(1::real) \<le> of_int \<lfloor>y\<rfloor>" using pos by linarith
    finally show ?thesis .
  next
    case False
    then show ?thesis using up by linarith
  qed
  then have "\<lfloor>y / 2\<rfloor> < \<lfloor>y\<rfloor>" by (simp only: floor_less_iff)
  moreover have "y / 2 = 1 / (x * 2)" by (simp only: y_def divide_divide_eq_left)
  ultimately have "\<lfloor>1 / (x * 2)\<rfloor> < \<lfloor>1 / x\<rfloor>" by (simp only: y_def)
  then have "nat \<lfloor>1 / (x * 2)\<rfloor> < nat \<lfloor>1 / x\<rfloor>" using pos unfolding y_def by linarith
  then show "(x * 2, x) \<in> measure (\<lambda>x. nat \<lfloor>1 / x\<rfloor>)" by (simp only: in_measure)
qed

declare bexp_up.simps [simp del]
declare bexp_down.simps [simp del]

definition bexp :: "real \<Rightarrow> int" where
  "bexp x = (if 1 \<le> x then bexp_up x else bexp_down x)"

definition pow2 :: "int \<Rightarrow> real" where
  "pow2 e = (if 0 \<le> e then 2 ^ nat e else 1 / 2 ^ nat (- e))"

text \<open>The nearest integer, a tie going to the even one.\<close>

definition round_even :: "real \<Rightarrow> int" where
  "round_even m =
     (let f = \<lfloor>m\<rfloor> in
      if m - of_int f < 1 / 2 then f
      else if 1 / 2 < m - of_int f then f + 1
      else if even f then f else f + 1)"

text \<open>
  The double nearest to a real number. A double has 53 significant bits, so the
  spacing of the doubles around \<open>x\<close> is \<open>2\<^sup>e\<^sup>-\<^sup>5\<^sup>2\<close> for the binary
  exponent \<open>e\<close> of \<open>x\<close>, and \<open>2\<^sup>-\<^sup>1\<^sup>0\<^sup>7\<^sup>4\<close> below the smallest normal number.
\<close>

definition round64 :: "real \<Rightarrow> jsnum" where
  "round64 x =
     (if x = 0 then Num 0
      else
        let a = \<bar>x\<bar>;
            e = max (bexp a) (- 1022);
            u = pow2 (e - 52);
            y = of_int (round_even (a / u)) * u
        in if 2 ^ 1024 \<le> y then (if 0 < x then PInf else NInf)
           else Num (sgn x * y))"

fun js_neg :: "jsnum \<Rightarrow> jsnum" where
  "js_neg (Num a) = Num (- a)"
| "js_neg PInf = NInf"
| "js_neg NInf = PInf"
| "js_neg NaN = NaN"

fun js_add :: "jsnum \<Rightarrow> jsnum \<Rightarrow> jsnum" where
  "js_add (Num a) (Num b) = round64 (a + b)"
| "js_add NaN _ = NaN"
| "js_add _ NaN = NaN"
| "js_add PInf NInf = NaN"
| "js_add NInf PInf = NaN"
| "js_add PInf _ = PInf"
| "js_add _ PInf = PInf"
| "js_add NInf _ = NInf"
| "js_add _ NInf = NInf"

definition js_sub :: "jsnum \<Rightarrow> jsnum \<Rightarrow> jsnum" where
  "js_sub a b = js_add a (js_neg b)"

fun js_sign :: "jsnum \<Rightarrow> int" where
  "js_sign (Num a) = (if a < 0 then - 1 else if a = 0 then 0 else 1)"
| "js_sign PInf = 1"
| "js_sign NInf = - 1"
| "js_sign NaN = 0"

text \<open>A product with an infinity is an infinity of the product's sign, and \<open>NaN\<close> with zero.\<close>

fun js_mul :: "jsnum \<Rightarrow> jsnum \<Rightarrow> jsnum" where
  "js_mul (Num a) (Num b) = round64 (a * b)"
| "js_mul NaN _ = NaN"
| "js_mul _ NaN = NaN"
| "js_mul a b =
     (if js_sign a * js_sign b = 0 then NaN
      else if 0 < js_sign a * js_sign b then PInf else NInf)"

text \<open>The only division of the source is by the literal 100.\<close>

fun js_div100 :: "jsnum \<Rightarrow> jsnum" where
  "js_div100 (Num a) = round64 (a / 100)"
| "js_div100 PInf = PInf"
| "js_div100 NInf = NInf"
| "js_div100 NaN = NaN"

text \<open>\<open>a < b\<close> on numbers: every comparison with \<open>NaN\<close> is false.\<close>

fun js_lt :: "jsnum \<Rightarrow> jsnum \<Rightarrow> bool" where
  "js_lt (Num a) (Num b) = (a < b)"
| "js_lt NaN _ = False"
| "js_lt _ NaN = False"
| "js_lt _ NInf = False"
| "js_lt PInf _ = False"
| "js_lt NInf _ = True"
| "js_lt _ PInf = True"

text \<open>A number is falsy when it is zero or \<open>NaN\<close>; \<open>a || b\<close> is \<open>a\<close> unless \<open>a\<close> is falsy.\<close>

fun truthy :: "jsnum \<Rightarrow> bool" where
  "truthy (Num a) = (a \<noteq> 0)"
| "truthy PInf = True"
| "truthy NInf = True"
| "truthy NaN = False"

definition js_or :: "jsnum \<Rightarrow> jsnum \<Rightarrow> jsnum" where
  "js_or a b = (if truthy a then a else b)"

subsection \<open>Rendering a number as text and parsing it back\<close>

text \<open>
  The source never parses free text in its totals: it parses the text the host language
  renders for a number, \<open>Number.parseFloat(String(x))\<close> and \<open>Number.parseInt(String(x))\<close>.
  Both compositions are modelled as one function on numbers.

  \<open>String(x)\<close> writes, for a finite \<open>x\<close>, the decimal with the fewest significant digits
  that rounds to \<open>x\<close> (the closest one where there are several, the even one at a tie):
  \<open>shortest_decimal\<close>. It is written in positional notation when it lies between
  \<open>10\<^sup>-\<^sup>6\<close> and \<open>10\<^sup>2\<^sup>1\<close>, which is when \<open>|x|\<close> is below \<open>10\<^sup>2\<^sup>1\<close> and not below
  the double nearest to \<open>10\<^sup>-\<^sup>6\<close>, and in exponent notation (\<open>d.ddde+n\<close>, \<open>d.ddde-n\<close>)
  otherwise. The infinities are written \<open>Infinity\<close> and \<open>-Infinity\<close>, and \<open>NaN\<close> is
  written \<open>NaN\<close>.

  \<open>parseFloat\<close> reads each of these texts back to the number it was written for.
  \<open>parseInt\<close> reads an optional sign and then decimal digits up to the first other
  character: the integer part of a positional numeral, the single leading digit of a
  numeral in exponent notation, and nothing (the result is \<open>NaN\<close>) of \<open>Infinity\<close> and
  of \<open>NaN\<close>.
\<close>

text \<open>The decimal exponent \<open>\<lfloor>log\<^sub>1\<^sub>0 x\<rfloor>\<close> of a positive number.\<close>

function dexp_up :: "real \<Rightarrow> int" where
  "dexp_up x = (if 10 \<le> x then dexp_up (x / 10) + 1 else 0)"
  by pat_completeness auto
termination
proof (relation "measure (\<lambda>x. nat \<lfloor>x\<rfloor>)")
  show "wf (measure (\<lambda>x::real. nat \<lfloor>x\<rfloor>))" by simp
next
  fix x :: real
  assume "10 \<le> x"
  moreover have "x - 1 < of_int \<lfloor>x\<rfloor>" by linarith
  ultimately have "x / 10 < of_int \<lfloor>x\<rfloor>" by linarith
  then have lt: "\<lfloor>x / 10\<rfloor> < \<lfloor>x\<rfloor>" by (simp only: floor_less_iff)
  have "1 \<le> \<lfloor>x\<rfloor>" using \<open>10 \<le> x\<close> by linarith
  with lt have "nat \<lfloor>x / 10\<rfloor> < nat \<lfloor>x\<rfloor>" by linarith
  then show "(x / 10, x) \<in> measure (\<lambda>x. nat \<lfloor>x\<rfloor>)" by (simp only: in_measure)
qed

function dexp_down :: "real \<Rightarrow> int" where
  "dexp_down x = (if 0 < x \<and> x < 1 then dexp_down (x * 10) - 1 else 0)"
  by pat_completeness auto
termination
proof (relation "measure (\<lambda>x. nat \<lfloor>1 / x\<rfloor>)")
  show "wf (measure (\<lambda>x::real. nat \<lfloor>1 / x\<rfloor>))" by simp
next
  fix x :: real
  assume a: "0 < x \<and> x < 1"
  then have one: "1 \<le> 1 / x" by simp
  define y where "y = 1 / x"
  have pos: "1 \<le> \<lfloor>y\<rfloor>" using one by (simp add: y_def le_floor_iff)
  have up: "y - 1 < of_int \<lfloor>y\<rfloor>" by linarith
  have "y / 10 < of_int \<lfloor>y\<rfloor>"
  proof (cases "y < 10")
    case True
    then have "y / 10 < 1" by linarith
    also have "(1::real) \<le> of_int \<lfloor>y\<rfloor>" using pos by linarith
    finally show ?thesis .
  next
    case False
    then show ?thesis using up by linarith
  qed
  then have "\<lfloor>y / 10\<rfloor> < \<lfloor>y\<rfloor>" by (simp only: floor_less_iff)
  moreover have "y / 10 = 1 / (x * 10)" by (simp only: y_def divide_divide_eq_left)
  ultimately have "\<lfloor>1 / (x * 10)\<rfloor> < \<lfloor>1 / x\<rfloor>" by (simp only: y_def)
  then have "nat \<lfloor>1 / (x * 10)\<rfloor> < nat \<lfloor>1 / x\<rfloor>" using pos unfolding y_def by linarith
  then show "(x * 10, x) \<in> measure (\<lambda>x. nat \<lfloor>1 / x\<rfloor>)" by (simp only: in_measure)
qed

declare dexp_up.simps [simp del]
declare dexp_down.simps [simp del]

definition dexp :: "real \<Rightarrow> int" where
  "dexp x = (if 1 \<le> x then dexp_up x else dexp_down x)"

definition pow10 :: "int \<Rightarrow> real" where
  "pow10 e = (if 0 \<le> e then 10 ^ nat e else 1 / 10 ^ nat (- e))"

text \<open>The first significant decimal digit of a positive number.\<close>

definition leading_digit :: "real \<Rightarrow> int" where
  "leading_digit v = \<lfloor>v / pow10 (dexp v)\<rfloor>"

text \<open>
  The shortest decimal of a positive double \<open>x\<close>: with \<open>k\<close> significant digits, for
  \<open>k = 1, 2, \<dots>, 17\<close>, the two neighbours of \<open>x\<close> on the grid of \<open>k\<close>-digit decimals are
  tried, and the first \<open>k\<close> at which one of them rounds to \<open>x\<close> gives the result.
  Seventeen digits always suffice.
\<close>

function shortest_from :: "int \<Rightarrow> real \<Rightarrow> real" where
  "shortest_from k x =
     (if 17 < k then x
      else
        let g = pow10 (dexp x + 1 - k);
            lo = of_int \<lfloor>x / g\<rfloor> * g;
            hi = lo + g;
            okl = (round64 lo = Num x);
            okh = (round64 hi = Num x)
        in if okl \<and> okh then
             (if x - lo < hi - x then lo
              else if hi - x < x - lo then hi
              else if even \<lfloor>x / g\<rfloor> then lo else hi)
           else if okl then lo
           else if okh then hi
           else shortest_from (k + 1) x)"
  by pat_completeness auto
termination
  by (relation "measure (\<lambda>(k, x). nat (18 - k))") simp_all

declare shortest_from.simps [simp del]

definition shortest_decimal :: "real \<Rightarrow> real" where
  "shortest_decimal x = shortest_from 1 x"

definition parseFloat_String :: "jsnum \<Rightarrow> jsnum" where
  "parseFloat_String v =
     (case v of Num x \<Rightarrow> Num x | PInf \<Rightarrow> PInf | NInf \<Rightarrow> NInf | NaN \<Rightarrow> NaN)"

definition parseInt_String :: "jsnum \<Rightarrow> jsnum" where
  "parseInt_String v =
     (case v of
        NaN \<Rightarrow> NaN
      | PInf \<Rightarrow> NaN
      | NInf \<Rightarrow> NaN
      | Num x \<Rightarrow>
          if x = 0 then Num 0
          else if 10 ^ 21 \<le> \<bar>x\<bar> \<or> js_lt (Num \<bar>x\<bar>) (round64 (1 / 10 ^ 6))
          then Num (sgn x * of_int (leading_digit (shortest_decimal \<bar>x\<bar>)))
          else Num (sgn x * of_int \<lfloor>\<bar>x\<bar>\<rfloor>))"

section \<open>Line items and totals\<close>

text \<open>
  The argument of \<open>updateItem\<close> is a text or a number; the description of an item
  holds whatever was written into it.
\<close>

datatype jsvalue = Str string | NumV jsnum

record item =
  description :: jsvalue
  quantity :: jsnum
  price :: jsnum

definition emptyItem :: item where
  "emptyItem = \<lparr>description = Str '''', quantity = Num 1, price = Num 0\<rparr>"

record totals =
  subtotal :: jsnum
  taxValue :: jsnum
  discountValue :: jsnum
  total :: jsnum

text \<open>The body of the \<open>reduce\<close> callback of \<open>calcTotals\<close>, without the running sum.\<close>

definition item_amount :: "item \<Rightarrow> jsnum" where
  "item_amount it =
     js_mul (js_or (parseFloat_String (price it)) (Num 0))
            (js_or (parseInt_String (quantity it)) (Num 1))"

definition calcTotals :: "item list \<Rightarrow> jsnum \<Rightarrow> jsnum \<Rightarrow> totals" where
  "calcTotals its tx dc =
     (let sub = foldl (\<lambda>sum it. js_add sum (item_amount it)) (Num 0) its;
          tv = js_mul (js_div100 (js_or tx (Num 0))) sub;
          dv = js_mul (js_div100 (js_or dc (Num 0))) sub;
          tot = js_sub (js_add sub tv) dv
      in \<lparr>subtotal = sub, taxValue = tv, discountValue = dv, total = tot\<rparr>)"

text \<open>
  The number the preview (\<open>InvoicePreview\<close>) formats with two decimals in the
  \<open>Total\<close> column of a row.
\<close>

definition rowTotal :: "item \<Rightarrow> jsnum" where
  "rowTotal it =
     js_mul (js_or (parseFloat_String (price it)) (Num 0))
            (js_or (parseInt_String (quantity it)) (Num 1))"

section \<open>The application state\<close>

datatype currency = USD | EUR | INR

datatype field = Description | Quantity | Price

datatype error = SyntaxError | TypeError

text \<open>
  Item objects are shared: an items array, the arrays kept in the history and the array
  of the next render hold references to the same objects, and \<open>updateItem\<close> writes
  into an object in place. The objects therefore live in a store (\<open>objs\<close>, addressed
  by position) and an items array is a list of addresses. Arrays themselves are never
  written after they are built, so they are values.
\<close>

type_synonym ref = nat

record InvoiceHistory =
  h_items :: "ref list"
  h_tax :: jsnum
  h_discount :: jsnum

text \<open>
  The state of the component: the object store, the state variables of \<open>App\<close> that
  carry the invoice, its history and its validation messages, and the lines written to the
  error console. The theme and the dialog flag are presentation only and are left out.
  \<open>errors\<close> is a \<open>Record<string, string>\<close>: an association list with at most one entry
  per key, read with \<open>map_of\<close>.

  A handler is a function from the state of the render it was created in to the state of
  the next render: what it reads are the values of that render, and the setter calls it
  makes take effect together. A handler that raises has the result \<open>Inl\<close>.
\<close>

record app =
  objs :: "item list"
  items :: "ref list"
  tax :: jsnum
  discount :: jsnum
  currency :: currency
  title :: string
  invoiceNumber :: string
  date :: string
  history :: "InvoiceHistory list"
  historyIndex :: int
  errors :: "(string \<times> string) list"
  console :: "string list"

subsection \<open>Array primitives\<close>

text \<open>\<open>xs.slice(start, end)\<close>: a negative bound counts from the end.\<close>

definition js_slice :: "'a list \<Rightarrow> int \<Rightarrow> int \<Rightarrow> 'a list" where
  "js_slice xs start end =
     (let len = int (length xs);
          k = (if start < 0 then max (len + start) 0 else min start len);
          final = (if end < 0 then max (len + end) 0 else min end len)
      in take (nat (final - k)) (drop (nat k) xs))"

text \<open>\<open>xs[i]\<close>: \<open>undefined\<close> (here \<open>None\<close>) outside the array.\<close>

definition js_index :: "'a list \<Rightarrow> int \<Rightarrow> 'a option" where
  "js_index xs i = (if 0 \<le> i \<and> i < int (length xs) then Some (xs ! nat i) else None)"

text \<open>\<open>String(i)\<close> for an array position \<open>i\<close>: its decimal digits.\<close>

definition digit_char :: "nat \<Rightarrow> char" where
  "digit_char d = char_of (48 + d)"

fun nat_String :: "nat \<Rightarrow> string" where
  "nat_String n = (if n < 10 then [digit_char n] else nat_String (n div 10) @ [digit_char (n mod 10)])"

declare nat_String.simps [simp del]

definition quantity_key :: "nat \<Rightarrow> string" where
  "quantity_key idx = ''quantity-'' @ nat_String idx"

definition price_key :: "nat \<Rightarrow> string" where
  "price_key idx = ''price-'' @ nat_String idx"

subsection \<open>History management\<close>

definition saveHistory :: "app \<Rightarrow> ref list \<Rightarrow> jsnum \<Rightarrow> jsnum \<Rightarrow> app" where
  "saveHistory st newItems newTax newDiscount =
     (let newHistory = js_slice (history st) 0 (historyIndex st + 1)
                         @ [\<lparr>h_items = newItems, h_tax = newTax, h_discount = newDiscount\<rparr>]
      in st\<lparr>history := (if 50 < length newHistory
                           then js_slice newHistory (-50) (int (length newHistory))
                           else newHistory),
              historyIndex := int (length newHistory) - 1\<rparr>)"

text \<open>
  Reading a field of \<open>undefined\<close> raises a \<open>TypeError\<close>: that is the \<open>None\<close> branch
  of \<open>undo\<close> and \<open>redo\<close>.
\<close>

definition undo :: "app \<Rightarrow> error + app" where
  "undo st =
     (if 0 < historyIndex st then
        (case js_index (history st) (historyIndex st - 1) of
           None \<Rightarrow> Inl TypeError
         | Some prevState \<Rightarrow>
             Inr (st\<lparr>historyIndex := historyIndex st - 1,
                     items := h_items prevState,
                     tax := h_tax prevState,
                     discount := h_discount prevState\<rparr>))
      else Inr st)"

definition redo :: "app \<Rightarrow> error + app" where
  "redo st =
     (if historyIndex st < int (length (history st)) - 1 then
        (case js_index (history st) (historyIndex st + 1) of
           None \<Rightarrow> Inl TypeError
         | Some nextState \<Rightarrow>
             Inr (st\<lparr>historyIndex := historyIndex st + 1,
                     items := h_items nextState,
                     tax := h_tax nextState,
                     discount := h_discount nextState\<rparr>))
      else Inr st)"

subsection \<open>Item management with validation\<close>

text \<open>
  \<open>Number(value)\<close>: a number is itself; the conversion of a text is the host language's
  and is a parameter (\<open>ToNumber\<close>) of every operation that converts one.
\<close>

definition Number :: "(string \<Rightarrow> jsnum) \<Rightarrow> jsvalue \<Rightarrow> jsnum" where
  "Number ToNumber v = (case v of NumV n \<Rightarrow> n | Str s \<Rightarrow> ToNumber s)"

definition write_field :: "(string \<Rightarrow> jsnum) \<Rightarrow> field \<Rightarrow> jsvalue \<Rightarrow> item \<Rightarrow> item" where
  "write_field ToNumber f v it =
     (case f of
        Description \<Rightarrow> it\<lparr>description := v\<rparr>
      | Quantity \<Rightarrow> it\<lparr>quantity := Number ToNumber v\<rparr>
      | Price \<Rightarrow> it\<lparr>price := Number ToNumber v\<rparr>)"

definition updateItem :: "(string \<Rightarrow> jsnum) \<Rightarrow> app \<Rightarrow> nat \<Rightarrow> field \<Rightarrow> jsvalue \<Rightarrow> error + app" where
  "updateItem ToNumber st idx f v =
     (let next = items st in
      if length next \<le> idx then Inl TypeError
      else
        let r = next ! idx;
            objs' = (objs st)[r := write_field ToNumber f v (objs st ! r)];
            e1 = (if f = Quantity \<and> js_lt (Number ToNumber v) (Num 1)
                  then AList.update (quantity_key idx) ''Quantity must be at least 1'' (errors st)
                  else AList.delete (quantity_key idx) (errors st));
            newErrors = (if f = Price \<and> js_lt (Number ToNumber v) (Num 0)
                  then AList.update (price_key idx) ''Price cannot be negative'' e1
                  else AList.delete (price_key idx) e1)
        in Inr (saveHistory (st\<lparr>objs := objs', items := next, errors := newErrors\<rparr>)
                  next (tax st) (discount st)))"

definition addItem :: "app \<Rightarrow> app" where
  "addItem st =
     (let newItems = items st @ [length (objs st)]
      in saveHistory (st\<lparr>objs := objs st @ [emptyItem], items := newItems\<rparr>)
           newItems (tax st) (discount st))"

definition removeItem :: "app \<Rightarrow> nat \<Rightarrow> app" where
  "removeItem st idx =
     (let prev = items st in
      if length prev \<le> 1 then st
      else
        let newItems = map snd (filter (\<lambda>(i, x). i \<noteq> idx) (enumerate 0 prev));
            newErrors = AList.delete (price_key idx) (AList.delete (quantity_key idx) (errors st))
        in saveHistory (st\<lparr>items := newItems, errors := newErrors\<rparr>)
             newItems (tax st) (discount st))"

text \<open>The \<open>onChange\<close> handlers of the tax and discount inputs.\<close>

definition onTaxChange :: "(string \<Rightarrow> jsnum) \<Rightarrow> app \<Rightarrow> string \<Rightarrow> app" where
  "onTaxChange ToNumber st v =
     saveHistory (st\<lparr>tax := ToNumber v\<rparr>) (items st) (ToNumber v) (discount st)"

definition onDiscountChange :: "(string \<Rightarrow> jsnum) \<Rightarrow> app \<Rightarrow> string \<Rightarrow> app" where
  "onDiscountChange ToNumber st v =
     saveHistory (st\<lparr>discount := ToNumber v\<rparr>) (items st) (tax st) (ToNumber v)"

subsection \<open>The other form handlers, and one event at a time\<close>

datatype op =
    UpdateItem nat field jsvalue
  | AddItem
  | RemoveItem nat
  | TaxChange string
  | DiscountChange string
  | SetCurrency currency
  | SetTitle string
  | SetInvoiceNumber string
  | SetDate string
  | Undo
  | Redo

fun apply_op :: "(string \<Rightarrow> jsnum) \<Rightarrow> app \<Rightarrow> op \<Rightarrow> error + app" where
  "apply_op ToNumber st (UpdateItem idx f v) = updateItem ToNumber st idx f v"
| "apply_op ToNumber st AddItem = Inr (addItem st)"
| "apply_op ToNumber st (RemoveItem idx) = Inr (removeItem st idx)"
| "apply_op ToNumber st (TaxChange v) = Inr (onTaxChange ToNumber st v)"
| "apply_op ToNumber st (DiscountChange v) = Inr (onDiscountChange ToNumber st v)"
| "apply_op ToNumber st (SetCurrency c) = Inr (st\<lparr>currency := c\<rparr>)"
| "apply_op ToNumber st (SetTitle t) = Inr (st\<lparr>title := t\<rparr>)"
| "apply_op ToNumber st (SetInvoiceNumber n) = Inr (st\<lparr>invoiceNumber := n\<rparr>)"
| "apply_op ToNumber st (SetDate d) = Inr (st\<lparr>date := d\<rparr>)"
| "apply_op ToNumber st Undo = undo st"
| "apply_op ToNumber st Redo = redo st"

text \<open>A session: the events one after the other, up to the first that raises.\<close>

fun run :: "(string \<Rightarrow> jsnum) \<Rightarrow> app \<Rightarrow> op list \<Rightarrow> error + app" where
  "run ToNumber st [] = Inr st"
| "run ToNumber st (ev # evs) =
     (case apply_op ToNumber st ev of
        Inl e \<Rightarrow> Inl e
      | Inr st' \<Rightarrow> run ToNumber st' evs)"

text \<open>A run of \<open>saveHistory\<close> calls, one per snapshot, each on the state the last one left.\<close>

fun record_all :: "app \<Rightarrow> InvoiceHistory list \<Rightarrow> app" where
  "record_all st [] = st"
| "record_all st (h # hs) = record_all (saveHistory st (h_items h) (h_tax h) (h_discount h)) hs"

subsection \<open>Startup\<close>

text \<open>
  The record that is written to the URL and to local storage, and read back at startup.
\<close>

record invoice_data =
  d_items :: "item list"
  d_tax :: jsnum
  d_discount :: jsnum
  d_currency :: currency
  d_title :: string
  d_invoiceNumber :: string
  d_date :: string

text \<open>
  What startup observes of a stored text: whether it is the empty text (which is falsy),
  and what \<open>JSON.parse\<close> makes of it: a syntax error, \<open>null\<close>, or a record of the
  declared shape.
\<close>

datatype json = JNull | JObject invoice_data

datatype raw_text = EmptyText | Malformed | Encoded json

fun JSON_parse :: "raw_text \<Rightarrow> error + json" where
  "JSON_parse (Encoded j) = Inr j"
| "JSON_parse EmptyText = Inl SyntaxError"
| "JSON_parse Malformed = Inl SyntaxError"

text \<open>Truthiness of a \<open>string | null\<close>: \<open>null\<close> and the empty text are falsy.\<close>

fun text_truthy :: "raw_text option \<Rightarrow> raw_text option" where
  "text_truthy None = None"
| "text_truthy (Some EmptyText) = None"
| "text_truthy (Some t) = Some t"

definition default_data :: "string \<Rightarrow> invoice_data" where
  "default_data today =
     \<lparr>d_items = [emptyItem], d_tax = Num 0, d_discount = Num 0, d_currency = USD,
      d_title = ''Invoice'', d_invoiceNumber = ''INV-001'', d_date = today\<rparr>"

text \<open>The initial values of the state variables, before the startup effect runs.\<close>

definition initial_state :: "string \<Rightarrow> app" where
  "initial_state today =
     \<lparr>objs = [emptyItem], items = [0], tax = Num 0, discount = Num 0, currency = USD,
      title = ''Invoice'', invoiceNumber = ''INV-001'', date = today,
      history = [], historyIndex = -1, errors = [], console = []\<rparr>"

text \<open>
  The first half of the startup effect: the choice of \<open>initialData\<close>, with the lines
  it writes to the error console. \<open>Inl\<close> is an exception that leaves the effect.
\<close>

definition read_initialData ::
  "string \<Rightarrow> raw_text option \<Rightarrow> raw_text option \<Rightarrow> error + (json \<times> string list)" where
  "read_initialData today data saved =
     (let initialData = JObject (default_data today) in
      case text_truthy data of
        Some d \<Rightarrow>
          (case JSON_parse d of
             Inr j \<Rightarrow> Inr (j, [])
           | Inl e \<Rightarrow> Inr (initialData, [''Invalid URL data'']))
      | None \<Rightarrow>
          (case text_truthy saved of
             None \<Rightarrow> Inr (initialData, [])
           | Some savedDataRaw \<Rightarrow>
               (case JSON_parse savedDataRaw of
                  Inl e \<Rightarrow> Inl e
                | Inr savedData \<Rightarrow>
                    Inr (if savedData \<noteq> JNull then savedData else initialData, []))))"

text \<open>
  The second half: the setters and the first \<open>saveHistory\<close>. The parsed items are new
  objects, stored behind the existing ones.
\<close>

definition apply_initialData :: "app \<Rightarrow> json \<Rightarrow> error + app" where
  "apply_initialData st j =
     (case j of
        JNull \<Rightarrow> Inl TypeError
      | JObject d \<Rightarrow>
          let refs = [length (objs st) ..< length (objs st) + length (d_items d)]
          in Inr (saveHistory
                    (st\<lparr>objs := objs st @ d_items d, items := refs,
                         tax := d_tax d, discount := d_discount d, currency := d_currency d,
                         title := d_title d, invoiceNumber := d_invoiceNumber d,
                         date := d_date d\<rparr>)
                    refs (d_tax d) (d_discount d)))"

definition startup :: "string \<Rightarrow> raw_text option \<Rightarrow> raw_text option \<Rightarrow> error + app" where
  "startup today data saved =
     (case read_initialData today data saved of
        Inl e \<Rightarrow> Inl e
      | Inr (j, lines) \<Rightarrow> apply_initialData ((initial_state today)\<lparr>console := lines\<rparr>) j)"

section \<open>Notions used to state the properties\<close>

text \<open>The invoice a state holds: its items read through the object store.\<close>

definition invoice_of :: "app \<Rightarrow> invoice_data" where
  "invoice_of st =
     \<lparr>d_items = map (\<lambda>r. objs st ! r) (items st), d_tax = tax st, d_discount = discount st,
      d_currency = currency st, d_title = title st, d_invoiceNumber = invoiceNumber st,
      d_date = date st\<rparr>"

definition loaded :: "invoice_data \<Rightarrow> error + app \<Rightarrow> bool" where
  "loaded d res = (case res of Inl e \<Rightarrow> False | Inr st \<Rightarrow> invoice_of st = d)"

definition logged :: "error + app \<Rightarrow> bool" where
  "logged res = (case res of Inl e \<Rightarrow> False | Inr st \<Rightarrow> console st \<noteq> [])"

text \<open>
  The startup rule in the words of the specification: a \<open>data\<close> parameter, when the URL
  has one, decides alone (its parsed record, or the defaults with a logged failure);
  without one the local snapshot decides in the same way; without both, the defaults.
  Where the parsed value is \<open>null\<close> the specification says nothing.
\<close>

definition spec_startup :: "string \<Rightarrow> raw_text option \<Rightarrow> raw_text option \<Rightarrow> bool" where
  "spec_startup today data saved =
     (let res = startup today data saved in
      case data of
        Some d \<Rightarrow>
          (case JSON_parse d of
             Inr (JObject v) \<Rightarrow> loaded v res
           | Inr JNull \<Rightarrow> True
           | Inl e \<Rightarrow> loaded (default_data today) res \<and> logged res)
      | None \<Rightarrow>
          (case saved of
             None \<Rightarrow> loaded (default_data today) res
           | Some s \<Rightarrow>
               (case JSON_parse s of
                  Inr (JObject v) \<Rightarrow> loaded v res
                | Inr JNull \<Rightarrow> True
                | Inl e \<Rightarrow> loaded (default_data today) res \<and> logged res)))"

text \<open>
  The totals in the words of the specification, in the arithmetic of the program: the
  products \<open>p \<times> q\<close> are summed in the order of the list, and every operation gives
  the nearest double.
\<close>

definition spec_subtotal :: "item list \<Rightarrow> jsnum" where
  "spec_subtotal its =
     foldl (\<lambda>sum it. js_add sum (js_mul (price it) (quantity it))) (Num 0) its"

definition spec_totals :: "item list \<Rightarrow> jsnum \<Rightarrow> jsnum \<Rightarrow> totals" where
  "spec_totals its tx dc =
     (let s = spec_subtotal its;
          tv = js_mul (js_div100 tx) s;
          dv = js_mul (js_div100 dc) s
      in \<lparr>subtotal = s, taxValue = tv, discountValue = dv, total = js_sub (js_add s tv) dv\<rparr>)"

text \<open>An item with a price \<open>p \<ge> 0\<close> and an integer quantity \<open>q \<ge> 1\<close>.\<close>

definition priced_item :: "item \<Rightarrow> bool" where
  "priced_item it =
     (case (price it, quantity it) of
        (Num p, Num q) \<Rightarrow> 0 \<le> p \<and> 1 \<le> q \<and> q = of_int \<lfloor>q\<rfloor>
      | _ \<Rightarrow> False)"

text \<open>
  An item with every number that does not parse replaced by its default: a price that
  \<open>parseFloat\<close> reads as \<open>NaN\<close> by 0, a quantity that \<open>parseInt\<close> reads as
  \<open>NaN\<close> by 1.
\<close>

definition with_defaults :: "item \<Rightarrow> item" where
  "with_defaults it =
     it\<lparr>price := (if parseFloat_String (price it) = NaN then Num 0 else price it),
        quantity := (if parseInt_String (quantity it) = NaN then Num 1 else quantity it)\<rparr>"

text \<open>
  The cursor of every state the component reaches lies between \<open>-1\<close> and the length of
  the log, and the log holds at most 50 snapshots.
\<close>

definition cursor_inv :: "app \<Rightarrow> bool" where
  "cursor_inv st =
     (- 1 \<le> historyIndex st \<and> historyIndex st \<le> int (length (history st))
      \<and> length (history st) \<le> 50)"

definition nonempty_inv :: "app \<Rightarrow> bool" where
  "nonempty_inv st = (items st \<noteq> [] \<and> list_all (\<lambda>h. h_items h \<noteq> []) (history st))"

text \<open>The last 50 entries of a list.\<close>

definition last50 :: "'a list \<Rightarrow> 'a list" where
  "last50 xs = drop (length xs - 50) xs"

section \<open>Numbers\<close>

lemma bexp_up_nonneg: "0 \<le> bexp_up x"
proof (induction x rule: bexp_up.induct)
  case (1 x)
  show ?case
  proof (cases "2 \<le> x")
    case True
    with "1.IH" have "0 \<le> bexp_up (x / 2)" by simp
    then show ?thesis using True by (subst bexp_up.simps) simp
  next
    case False
    then show ?thesis by (subst bexp_up.simps) simp
  qed
qed

lemma bexp_up_le: "x < 2 ^ Suc n \<Longrightarrow> bexp_up x \<le> int n"
proof (induction n arbitrary: x)
  case 0
  then have "\<not> 2 \<le> x" by simp
  then show ?case by (subst bexp_up.simps) simp
next
  case (Suc n)
  show ?case
  proof (cases "2 \<le> x")
    case True
    from Suc.prems have "x / 2 < 2 ^ Suc n" by simp
    from Suc.IH [OF this] show ?thesis using True by (subst bexp_up.simps) simp
  next
    case False
    then show ?thesis by (subst bexp_up.simps) simp
  qed
qed

lemma round_even_of_int: "round_even (of_int m) = m"
  by (simp add: round_even_def)

lemma round64_of_int:
  assumes "\<bar>n\<bar> < 2 ^ 53"
  shows "round64 (of_int n) = Num (of_int n)"
proof (cases "n = 0")
  case True
  then show ?thesis by (simp add: round64_def)
next
  case False
  define a :: real where "a = of_int \<bar>n\<bar>"
  have a1: "1 \<le> a" using False by (simp add: a_def)
  have a53: "a < 2 ^ Suc 52"
  proof -
    have "(of_int \<bar>n\<bar> :: real) < of_int (2 ^ 53)" using assms by (simp only: of_int_less_iff)
    then show ?thesis by (simp add: a_def)
  qed
  have abs: "\<bar>of_int n :: real\<bar> = a" by (simp add: a_def)
  have e0: "0 \<le> bexp_up a" by (rule bexp_up_nonneg)
  have e52: "bexp_up a \<le> 52" using bexp_up_le [OF a53] by simp
  have be: "bexp a = bexp_up a" using a1 by (simp add: bexp_def)
  define j where "j = nat (52 - bexp_up a)"
  have mx: "max (bexp a) (- 1022) = bexp_up a" using e0 be by simp
  have u: "pow2 (bexp_up a - 52) = 1 / 2 ^ j"
  proof (cases "bexp_up a = 52")
    case True
    then show ?thesis by (simp add: pow2_def j_def)
  next
    case False
    with e52 have "bexp_up a - 52 < 0" by simp
    then have "pow2 (bexp_up a - 52) = 1 / 2 ^ nat (- (bexp_up a - 52))" by (simp add: pow2_def)
    moreover have "nat (- (bexp_up a - 52)) = j" by (simp add: j_def)
    ultimately show ?thesis by simp
  qed
  have q: "a / (1 / 2 ^ j) = of_int (\<bar>n\<bar> * 2 ^ j)" by (simp add: a_def)
  have r: "round_even (a / (1 / 2 ^ j)) = \<bar>n\<bar> * 2 ^ j"
    unfolding q by (rule round_even_of_int)
  have y: "of_int (round_even (a / (1 / 2 ^ j))) * (1 / 2 ^ j) = a"
    unfolding r by (simp add: a_def)
  have "(2::real) ^ 53 \<le> 2 ^ 1024" by (rule power_increasing) simp_all
  with a53 have no: "\<not> 2 ^ 1024 \<le> a" by simp
  have sg: "sgn (of_int n :: real) * a = of_int n"
    by (simp add: a_def sgn_if)
  have nz: "(of_int n :: real) \<noteq> 0" using False by simp
  show ?thesis
    unfolding round64_def Let_def abs mx u y
    using no nz sg by (simp only: if_False)
qed

lemma round64_numeral [simp]:
  "numeral k < (2 :: int) ^ 53 \<Longrightarrow> round64 (numeral k) = Num (numeral k)"
  using round64_of_int [of "numeral k"] by simp

lemma round64_one [simp]: "round64 1 = Num 1"
  using round64_of_int [of 1] by simp

lemma round64_zero [simp]: "round64 0 = Num 0"
  by (simp add: round64_def)

lemma round64_millionth: "round64 (1 / 10 ^ 6) = Num (4722366482869645 / 2 ^ 72)"
  apply (simp add: round64_def Let_def)
  apply (simp add: bexp_def bexp_down.simps bexp_up.simps)
  apply (simp add: pow2_def)
  apply (simp add: round_even_def Let_def)
  done

lemma parseInt_String_integer:
  assumes "1 \<le> q" "q = of_int \<lfloor>q\<rfloor>" "q < 10 ^ 21"
  shows "parseInt_String (Num q) = Num q"
proof -
  have a: "\<bar>q\<bar> = q" using assms(1) by simp
  have s: "sgn q = 1" using assms(1) by simp
  have "(4722366482869645 / 2 ^ 72 :: real) < 1" by simp
  then have b: "\<not> js_lt (Num q) (round64 (1 / 10 ^ 6))"
    using assms(1) unfolding round64_millionth js_lt.simps by linarith
  have c: "\<not> 10 ^ 21 \<le> q" using assms(3) by simp
  have d: "q \<noteq> 0" using assms(1) by auto
  have "parseInt_String (Num q) = Num (sgn q * of_int \<lfloor>\<bar>q\<bar>\<rfloor>)"
    unfolding parseInt_String_def using b c d by (simp only: jsnum.case a if_False simp_thms)
  then show ?thesis using assms(2) by (simp add: a s)
qed

lemma js_or_zero: "v \<noteq> NaN \<Longrightarrow> js_or v (Num 0) = v"
  by (cases v) (auto simp: js_or_def)

lemma item_amount_priced:
  assumes "priced_item it" "js_lt (quantity it) (Num (10 ^ 21))"
  shows "item_amount it = js_mul (price it) (quantity it)"
proof -
  from assms(1) obtain p q where pq: "price it = Num p" "quantity it = Num q"
    and h: "0 \<le> p" "1 \<le> q" "q = of_int \<lfloor>q\<rfloor>"
    by (auto simp: priced_item_def split: jsnum.splits)
  from assms(2) pq have lt: "q < 10 ^ 21" by simp
  have pi: "parseInt_String (Num q) = Num q"
    using h(2) h(3) lt by (rule parseInt_String_integer)
  have "q \<noteq> 0" using h(2) by auto
  then have "js_or (parseInt_String (quantity it)) (Num 1) = quantity it"
    by (simp add: pq pi js_or_def)
  moreover have "js_or (parseFloat_String (price it)) (Num 0) = price it"
    by (simp add: pq parseFloat_String_def js_or_zero)
  ultimately show ?thesis by (simp add: item_amount_def)
qed

lemma foldl_amount_priced:
  assumes "\<forall>it \<in> set its. priced_item it \<and> js_lt (quantity it) (Num (10 ^ 21))"
  shows "foldl (\<lambda>sum it. js_add sum (item_amount it)) a its
           = foldl (\<lambda>sum it. js_add sum (js_mul (price it) (quantity it))) a its"
  using assms
proof (induction its arbitrary: a)
  case Nil
  show ?case by simp
next
  case (Cons it its)
  then have am: "item_amount it = js_mul (price it) (quantity it)"
    by (simp add: item_amount_priced)
  from Cons.prems have rest: "\<forall>it \<in> set its. priced_item it \<and> js_lt (quantity it) (Num (10 ^ 21))"
    by simp
  show ?case
    using Cons.IH [OF rest] by (simp add: am)
qed

lemma bexp_up_ge: "2 ^ n \<le> x \<Longrightarrow> int n \<le> bexp_up x"
proof (induction n arbitrary: x)
  case 0
  show ?case using bexp_up_nonneg [of x] by simp
next
  case (Suc n)
  have "(1::real) \<le> 2 ^ n" by (rule one_le_power) simp
  moreover from Suc.prems have "2 * 2 ^ n \<le> x" by simp
  ultimately have two: "2 \<le> x" by linarith
  from Suc.prems have "2 ^ n \<le> x / 2" by simp
  from Suc.IH [OF this] show ?case using two by (subst bexp_up.simps) simp
qed

lemma bexp_up_lower: "1 \<le> x \<Longrightarrow> 2 ^ nat (bexp_up x) \<le> x"
proof (induction x rule: bexp_up.induct)
  case (1 x)
  show ?case
  proof (cases "2 \<le> x")
    case True
    then have "1 \<le> x / 2" by simp
    from "1.IH" [OF True this] have ih: "2 ^ nat (bexp_up (x / 2)) \<le> x / 2" .
    have e: "bexp_up x = bexp_up (x / 2) + 1" using True by (subst bexp_up.simps) simp
    have "nat (bexp_up (x / 2) + 1) = Suc (nat (bexp_up (x / 2)))"
      using bexp_up_nonneg [of "x / 2"] by simp
    then have "(2::real) ^ nat (bexp_up x) = 2 * 2 ^ nat (bexp_up (x / 2))"
      by (simp add: e)
    with ih show ?thesis by simp
  next
    case False
    then have "bexp_up x = 0" by (subst bexp_up.simps) simp
    with "1.prems" show ?thesis by simp
  qed
qed

lemma round_even_ge_floor: "\<lfloor>m\<rfloor> \<le> round_even m"
  by (simp add: round_even_def Let_def)

lemma round64_overflow:
  assumes "2 ^ 1024 \<le> x"
  shows "round64 x = PInf"
proof -
  have one: "(1::real) \<le> 2 ^ 1024" by (rule one_le_power) simp
  with assms have x1: "1 \<le> x" by linarith
  then have x0: "0 < x" and nz: "x \<noteq> 0" and ab: "\<bar>x\<bar> = x" by simp_all
  define e where "e = bexp_up x"
  have e1024: "1024 \<le> e" using bexp_up_ge [OF assms] by (simp add: e_def)
  have be: "bexp x = e" using x1 by (simp add: bexp_def e_def)
  have mx: "max (bexp x) (- 1022) = e" unfolding be using e1024 by simp
  define j where "j = nat (e - 52)"
  have u: "pow2 (e - 52) = 2 ^ j" using e1024 by (simp add: pow2_def j_def)
  have ne: "nat e = j + 52" using e1024 by (simp add: j_def)
  have lower: "(2::real) ^ (j + 52) \<le> x" using bexp_up_lower [OF x1] by (simp add: e_def [symmetric] ne)
  have "(2::real) ^ 52 \<le> x / 2 ^ j"
  proof -
    have "(2::real) ^ 52 * 2 ^ j \<le> x" using lower by (simp add: power_add mult.commute)
    then show ?thesis by (simp add: pos_le_divide_eq)
  qed
  then have "(2::int) ^ 52 \<le> \<lfloor>x / 2 ^ j\<rfloor>" by (simp add: le_floor_iff)
  with round_even_ge_floor [of "x / 2 ^ j"] have r: "(2::int) ^ 52 \<le> round_even (x / 2 ^ j)" by linarith
  have "(2::real) ^ 1024 \<le> 2 ^ (j + 52)"
    by (rule power_increasing) (use e1024 ne in simp_all)
  also have "\<dots> = 2 ^ 52 * 2 ^ j" by (simp add: power_add mult.commute)
  also have "\<dots> \<le> of_int (round_even (x / 2 ^ j)) * 2 ^ j"
  proof (rule mult_right_mono)
    have "(of_int (2 ^ 52) :: real) \<le> of_int (round_even (x / 2 ^ j))"
      using r by (simp only: of_int_le_iff)
    then show "(2::real) ^ 52 \<le> of_int (round_even (x / 2 ^ j))" by simp
  qed simp
  finally have big: "(2::real) ^ 1024 \<le> of_int (round_even (x / 2 ^ j)) * 2 ^ j" .
  show ?thesis
    unfolding round64_def Let_def ab mx u
    using big nz x0 by (simp only: if_True if_False)
qed

section \<open>Totals\<close>

text \<open>
  C1, as it holds: for every list of items with a price \<open>p \<ge> 0\<close> and an integer quantity
  \<open>1 \<le> q < 10\<^sup>2\<^sup>1\<close>, and every tax and discount percentage that is a number,
  \<open>calcTotals\<close> returns the subtotal \<open>\<Sum>(p \<times> q)\<close>, the tax value
  \<open>tax / 100 \<times> subtotal\<close>, the discount value \<open>discount / 100 \<times> subtotal\<close> and the
  total \<open>subtotal + taxValue - discountValue\<close>, each computed in double arithmetic (the
  sum in list order, every operation rounded to the nearest double).
\<close>

theorem calcTotals_formula:
  assumes "\<forall>it \<in> set its. priced_item it \<and> js_lt (quantity it) (Num (10 ^ 21))"
    and "tx \<noteq> NaN" and "dc \<noteq> NaN"
  shows "calcTotals its tx dc = spec_totals its tx dc"
proof -
  have sub: "foldl (\<lambda>sum it. js_add sum (item_amount it)) (Num 0) its = spec_subtotal its"
    unfolding spec_subtotal_def by (rule foldl_amount_priced [OF assms(1)])
  show ?thesis
    by (simp add: calcTotals_def spec_totals_def sub Let_def js_or_zero assms(2,3))
qed

lemma round64_tenth: "round64 (1 / 10) = Num (3602879701896397 / 2 ^ 55)"
  apply (simp add: round64_def Let_def)
  apply (simp add: bexp_def bexp_down.simps bexp_up.simps)
  apply (simp add: pow2_def)
  apply (simp add: round_even_def Let_def)
  done

lemma round64_tenth_20: "round64 (3602879701896397 / 2 ^ 55 * 20) = Num 2"
  apply (simp add: round64_def Let_def)
  apply (simp add: bexp_def bexp_down.simps bexp_up.simps)
  apply (simp add: pow2_def)
  apply (simp add: round_even_def Let_def)
  done

lemma round64_twentieth: "round64 (1 / 20) = Num (3602879701896397 / 2 ^ 56)"
  apply (simp add: round64_def Let_def)
  apply (simp add: bexp_def bexp_down.simps bexp_up.simps)
  apply (simp add: pow2_def)
  apply (simp add: round_even_def Let_def)
  done

lemma round64_twentieth_20: "round64 (3602879701896397 / 2 ^ 56 * 20) = Num 1"
  apply (simp add: round64_def Let_def)
  apply (simp add: bexp_def bexp_down.simps bexp_up.simps)
  apply (simp add: pow2_def)
  apply (simp add: round_even_def Let_def)
  done

lemma scenario_totals:
  "spec_totals [\<lparr>description = Str ''A'', quantity = Num 2, price = Num 10\<rparr>] (Num 10) (Num 5)
     = \<lparr>subtotal = Num 20, taxValue = Num 2, discountValue = Num 1, total = Num 21\<rparr>"
  using round64_tenth round64_tenth_20 round64_twentieth round64_twentieth_20
  by (simp add: spec_totals_def spec_subtotal_def Let_def js_sub_def)

text \<open>
  The scenario of C1: one item \<open>A\<close> with quantity 2 and price 10, tax 10 and discount 5
  give the subtotal 20, the tax value 2, the discount value 1 and the total 21, in double
  arithmetic as well: \<open>10 / 100\<close> is rounded, and its product with 20 rounds to 2.
\<close>

theorem calcTotals_formula_witness:
  "priced_item \<lparr>description = Str ''A'', quantity = Num 2, price = Num 10\<rparr>
   \<and> js_lt (quantity \<lparr>description = Str ''A'', quantity = Num 2, price = Num 10\<rparr>) (Num (10 ^ 21))
   \<and> Num 10 \<noteq> NaN \<and> Num 5 \<noteq> NaN
   \<and> calcTotals [\<lparr>description = Str ''A'', quantity = Num 2, price = Num 10\<rparr>] (Num 10) (Num 5)
       = \<lparr>subtotal = Num 20, taxValue = Num 2, discountValue = Num 1, total = Num 21\<rparr>"
proof -
  have h: "\<forall>it \<in> set [\<lparr>description = Str ''A'', quantity = Num 2, price = Num 10\<rparr>].
       priced_item it \<and> js_lt (quantity it) (Num (10 ^ 21))"
    by (simp add: priced_item_def)
  have t: "Num 10 \<noteq> NaN" "Num 5 \<noteq> NaN" by simp_all
  from calcTotals_formula [OF h t]
  have "calcTotals [\<lparr>description = Str ''A'', quantity = Num 2, price = Num 10\<rparr>] (Num 10) (Num 5)
       = \<lparr>subtotal = Num 20, taxValue = Num 2, discountValue = Num 1, total = Num 21\<rparr>"
    by (simp only: scenario_totals)
  with h t show ?thesis by simp
qed

lemma round64_1e21: "round64 (10 ^ 21) = Num (10 ^ 21)"
  apply (simp add: round64_def Let_def)
  apply (simp add: bexp_def bexp_down.simps bexp_up.simps)
  apply (simp add: pow2_def)
  apply (simp add: round_even_def Let_def)
  done

lemma round64_2e21: "round64 (2 * 10 ^ 21) = Num (2 * 10 ^ 21)"
  apply (simp add: round64_def Let_def)
  apply (simp add: bexp_def bexp_down.simps bexp_up.simps)
  apply (simp add: pow2_def)
  apply (simp add: round_even_def Let_def)
  done

lemma dexp_1e21: "dexp (10 ^ 21) = 21"
  by (simp add: dexp_def dexp_up.simps)

lemma shortest_decimal_1e21: "shortest_decimal (10 ^ 21) = 10 ^ 21"
  using round64_1e21 round64_2e21 dexp_1e21
  by (simp add: shortest_decimal_def shortest_from.simps Let_def pow10_def)

lemma parseInt_String_1e21: "parseInt_String (Num (10 ^ 21)) = Num 1"
  using shortest_decimal_1e21 dexp_1e21
  by (simp add: parseInt_String_def leading_digit_def pow10_def)

text \<open>
  C1 as it is written fails for an integer quantity of \<open>10\<^sup>2\<^sup>1\<close> or more: its text
  is in exponent notation (\<open>1e+21\<close>), of which \<open>parseInt\<close> reads the leading digit
  only. One item of price 1 and quantity \<open>10\<^sup>2\<^sup>1\<close> has the subtotal 1, where the
  double product \<open>1 \<times> 10\<^sup>2\<^sup>1\<close> is \<open>10\<^sup>2\<^sup>1\<close>.
\<close>

theorem calcTotals_huge_quantity:
  "priced_item \<lparr>description = Str ''A'', quantity = Num (10 ^ 21), price = Num 1\<rparr>
   \<and> calcTotals [\<lparr>description = Str ''A'', quantity = Num (10 ^ 21), price = Num 1\<rparr>] (Num 10) (Num 5)
       \<noteq> spec_totals [\<lparr>description = Str ''A'', quantity = Num (10 ^ 21), price = Num 1\<rparr>] (Num 10) (Num 5)
   \<and> subtotal (calcTotals [\<lparr>description = Str ''A'', quantity = Num (10 ^ 21), price = Num 1\<rparr>] (Num 10) (Num 5)) = Num 1
   \<and> subtotal (spec_totals [\<lparr>description = Str ''A'', quantity = Num (10 ^ 21), price = Num 1\<rparr>] (Num 10) (Num 5)) = Num (10 ^ 21)"
proof -
  let ?big = "\<lparr>description = Str ''A'', quantity = Num (10 ^ 21), price = Num 1\<rparr>"
  have p: "priced_item ?big" by (simp add: priced_item_def)
  have am: "item_amount ?big = Num 1"
    using parseInt_String_1e21 by (simp add: item_amount_def parseFloat_String_def js_or_def)
  have a: "subtotal (calcTotals [?big] (Num 10) (Num 5)) = Num 1"
    using am by (simp add: calcTotals_def Let_def)
  have b: "subtotal (spec_totals [?big] (Num 10) (Num 5)) = Num (10 ^ 21)"
    using round64_1e21 by (simp add: spec_totals_def spec_subtotal_def Let_def)
  have "subtotal (calcTotals [?big] (Num 10) (Num 5)) \<noteq> subtotal (spec_totals [?big] (Num 10) (Num 5))"
    unfolding a b by simp
  then have c: "calcTotals [?big] (Num 10) (Num 5) \<noteq> spec_totals [?big] (Num 10) (Num 5)"
    by auto
  from p c a b show ?thesis by blast
qed

lemma parseInt_String_one: "parseInt_String (Num 1) = Num 1"
  using parseInt_String_integer [of 1] by simp

lemma item_amount_with_defaults: "item_amount (with_defaults it) = item_amount it"
proof -
  have p: "js_or (parseFloat_String (price (with_defaults it))) (Num 0)
             = js_or (parseFloat_String (price it)) (Num 0)"
    by (cases "price it") (simp_all add: with_defaults_def parseFloat_String_def js_or_def)
  have q: "js_or (parseInt_String (quantity (with_defaults it))) (Num 1)
             = js_or (parseInt_String (quantity it)) (Num 1)"
  proof (cases "parseInt_String (quantity it) = NaN")
    case True
    then show ?thesis by (simp add: with_defaults_def parseInt_String_one js_or_def)
  next
    case False
    then show ?thesis by (simp add: with_defaults_def)
  qed
  show ?thesis unfolding item_amount_def p q ..
qed

lemma foldl_amount_map:
  "foldl (\<lambda>sum it. js_add sum (item_amount it)) a its = foldl js_add a (map item_amount its)"
  by (induction its arbitrary: a) simp_all

lemma subtotal_fold:
  "subtotal (calcTotals its tx dc) = foldl js_add (Num 0) (map item_amount its)"
  by (simp add: calcTotals_def Let_def foldl_amount_map)

lemma calcTotals_cong:
  assumes "map item_amount its = map item_amount its'"
  shows "calcTotals its tx dc = calcTotals its' tx dc"
  using assms by (simp add: calcTotals_def foldl_amount_map)

text \<open>
  C8: a price that \<open>parseFloat\<close> cannot read (\<open>NaN\<close>) counts as the price 0 and a
  quantity that \<open>parseInt\<close> cannot read (\<open>NaN\<close> or an infinity) counts as the quantity
  1: the totals are those of the items with these defaults written in, and the amount of
  such an item is computed from the default. \<open>calcTotals\<close> has no failing branch: it
  returns totals for every list of items.
\<close>

theorem calcTotals_unparsed_defaults:
  "calcTotals its tx dc = calcTotals (map with_defaults its) tx dc
   \<and> (parseFloat_String (price it) = NaN \<longrightarrow>
        item_amount it = js_mul (Num 0) (js_or (parseInt_String (quantity it)) (Num 1)))
   \<and> (parseInt_String (quantity it) = NaN \<longrightarrow>
        item_amount it = js_mul (js_or (parseFloat_String (price it)) (Num 0)) (Num 1))"
proof -
  have "map item_amount its = map item_amount (map with_defaults its)"
    by (simp add: item_amount_with_defaults)
  then have a: "calcTotals its tx dc = calcTotals (map with_defaults its) tx dc"
    by (rule calcTotals_cong)
  have g: "parseFloat_String (price it) = NaN \<longrightarrow>
        item_amount it = js_mul (Num 0) (js_or (parseInt_String (quantity it)) (Num 1))"
    by (simp add: item_amount_def js_or_def)
  have h: "parseInt_String (quantity it) = NaN \<longrightarrow>
        item_amount it = js_mul (js_or (parseFloat_String (price it)) (Num 0)) (Num 1)"
    by (simp add: item_amount_def js_or_def)
  from a g h show ?thesis by blast
qed

theorem calcTotals_unparsed_defaults_witness:
  "parseFloat_String (price \<lparr>description = Str ''x'', quantity = PInf, price = NaN\<rparr>) = NaN
   \<and> parseInt_String (quantity \<lparr>description = Str ''x'', quantity = PInf, price = NaN\<rparr>) = NaN
   \<and> item_amount \<lparr>description = Str ''x'', quantity = PInf, price = NaN\<rparr> = Num 0
   \<and> calcTotals [\<lparr>description = Str ''x'', quantity = NaN, price = Num 7\<rparr>,
                 \<lparr>description = Str ''y'', quantity = Num 3, price = NaN\<rparr>] (Num 100) (Num 0)
       = \<lparr>subtotal = Num 7, taxValue = Num 7, discountValue = Num 0, total = Num 14\<rparr>"
proof -
  let ?x = "\<lparr>description = Str ''x'', quantity = PInf, price = NaN\<rparr>"
  let ?its = "[\<lparr>description = Str ''x'', quantity = NaN, price = Num 7\<rparr>,
               \<lparr>description = Str ''y'', quantity = Num 3, price = NaN\<rparr>]"
  have h1: "parseFloat_String (price ?x) = NaN" by (simp add: parseFloat_String_def)
  have h2: "parseInt_String (quantity ?x) = NaN" by (simp add: parseInt_String_def)
  from calcTotals_unparsed_defaults [of ?its "Num 100" "Num 0" ?x] h1 h2
  have a: "calcTotals ?its (Num 100) (Num 0) = calcTotals (map with_defaults ?its) (Num 100) (Num 0)"
    and b: "item_amount ?x = js_mul (Num 0) (js_or (parseInt_String (quantity ?x)) (Num 1))"
    by blast+
  have b': "item_amount ?x = Num 0" unfolding b h2 by (simp add: js_or_def)
  have m: "map with_defaults ?its = [\<lparr>description = Str ''x'', quantity = Num 1, price = Num 7\<rparr>,
               \<lparr>description = Str ''y'', quantity = Num 3, price = Num 0\<rparr>]"
    using parseInt_String_integer [of 3]
    by (simp add: with_defaults_def parseFloat_String_def parseInt_String_def)
  have c: "calcTotals ?its (Num 100) (Num 0)
       = \<lparr>subtotal = Num 7, taxValue = Num 7, discountValue = Num 0, total = Num 14\<rparr>"
    unfolding a m
    using parseInt_String_integer [of 3] parseInt_String_one
    by (simp add: calcTotals_def Let_def item_amount_def parseFloat_String_def js_or_def js_sub_def)
  from h1 h2 b' c show ?thesis by blast
qed

text \<open>
  C10: the subtotal is the sum, in list order, of the items' amounts; the amount of an
  item whose parsed quantity is falsy (0 or \<open>NaN\<close>), in particular of an item of quantity
  0, is its parsed price times 1; a \<open>NaN\<close> tax or discount percentage gives the totals
  of the percentage 0; and the row total of the preview is the same amount.
\<close>

theorem falsy_quantity_and_percentages:
  "subtotal (calcTotals its tx dc) = foldl js_add (Num 0) (map item_amount its)
   \<and> (\<not> truthy (parseInt_String (quantity it)) \<longrightarrow>
        item_amount it = js_mul (js_or (parseFloat_String (price it)) (Num 0)) (Num 1))
   \<and> (quantity it = Num 0 \<longrightarrow> \<not> truthy (parseInt_String (quantity it)))
   \<and> calcTotals its NaN dc = calcTotals its (Num 0) dc
   \<and> calcTotals its tx NaN = calcTotals its tx (Num 0)
   \<and> rowTotal it = item_amount it"
proof -
  have a: "\<not> truthy (parseInt_String (quantity it)) \<longrightarrow>
        item_amount it = js_mul (js_or (parseFloat_String (price it)) (Num 0)) (Num 1)"
    by (simp add: item_amount_def js_or_def)
  have b: "quantity it = Num 0 \<longrightarrow> \<not> truthy (parseInt_String (quantity it))"
    by (simp add: parseInt_String_def)
  have c: "calcTotals its NaN dc = calcTotals its (Num 0) dc"
    by (simp add: calcTotals_def js_or_def)
  have e: "calcTotals its tx NaN = calcTotals its tx (Num 0)"
    by (simp add: calcTotals_def js_or_def)
  have g: "rowTotal it = item_amount it"
    by (simp add: rowTotal_def item_amount_def)
  from subtotal_fold [of its tx dc] a b c e g show ?thesis by blast
qed

theorem falsy_quantity_and_percentages_witness:
  "\<not> truthy (parseInt_String (quantity \<lparr>description = Str ''x'', quantity = Num 0, price = Num 10\<rparr>))
   \<and> quantity \<lparr>description = Str ''x'', quantity = Num 0, price = Num 10\<rparr> = Num 0
   \<and> item_amount \<lparr>description = Str ''x'', quantity = Num 0, price = Num 10\<rparr> = Num 10
   \<and> rowTotal \<lparr>description = Str ''x'', quantity = Num 0, price = Num 10\<rparr> = Num 10
   \<and> calcTotals [\<lparr>description = Str ''x'', quantity = Num 0, price = Num 10\<rparr>] NaN NaN
       = \<lparr>subtotal = Num 10, taxValue = Num 0, discountValue = Num 0, total = Num 10\<rparr>"
proof -
  let ?x = "\<lparr>description = Str ''x'', quantity = Num 0, price = Num 10\<rparr>"
  have h1: "quantity ?x = Num 0" by simp
  from falsy_quantity_and_percentages [of "[?x]" NaN NaN ?x] h1
  have f: "\<not> truthy (parseInt_String (quantity ?x))"
    and am: "item_amount ?x = js_mul (js_or (parseFloat_String (price ?x)) (Num 0)) (Num 1)"
    and r: "rowTotal ?x = item_amount ?x"
    and c: "calcTotals [?x] NaN NaN = calcTotals [?x] (Num 0) NaN"
    by blast+
  from falsy_quantity_and_percentages [of "[?x]" "Num 0" NaN ?x]
  have d: "calcTotals [?x] (Num 0) NaN = calcTotals [?x] (Num 0) (Num 0)"
    by blast
  have am': "item_amount ?x = Num 10"
    unfolding am by (simp add: parseFloat_String_def js_or_def)
  have t: "calcTotals [?x] NaN NaN
       = \<lparr>subtotal = Num 10, taxValue = Num 0, discountValue = Num 0, total = Num 10\<rparr>"
    unfolding c d by (simp add: calcTotals_def Let_def am' js_or_def js_sub_def)
  from f h1 am' r t show ?thesis by simp
qed

text \<open>
  Rounding and overflow, as the program has them: \<open>(10 / 100) * 3\<close> is
  \<open>0.30000000000000004\<close>, and a subtotal that overflows gives the total \<open>NaN\<close>.
\<close>

lemma round64_three_tenths:
  "round64 (3602879701896397 / 2 ^ 55 * 3) = Num (1351079888211149 / 2 ^ 52)"
  apply (simp add: round64_def Let_def)
  apply (simp add: bexp_def bexp_down.simps bexp_up.simps)
  apply (simp add: pow2_def)
  apply (simp add: round_even_def Let_def)
  done

lemma tax_of_three: "js_mul (js_div100 (Num 10)) (Num 3) = Num (1351079888211149 / 2 ^ 52)"
  using round64_tenth round64_three_tenths by simp

lemma overflow_total:
  "calcTotals [\<lparr>description = Str ''A'', quantity = Num 2, price = Num (2 ^ 1023)\<rparr>] (Num 10) (Num 5)
     = \<lparr>subtotal = PInf, taxValue = PInf, discountValue = PInf, total = NaN\<rparr>"
proof -
  have "round64 (2 ^ 1023 * 2) = PInf" by (rule round64_overflow) simp
  then have am: "item_amount \<lparr>description = Str ''A'', quantity = Num 2, price = Num (2 ^ 1023)\<rparr> = PInf"
    using parseInt_String_integer [of 2]
    by (simp add: item_amount_def parseFloat_String_def js_or_def)
  show ?thesis
    using round64_tenth round64_twentieth am
    by (simp add: calcTotals_def Let_def js_or_def js_sub_def)
qed

section \<open>The history log\<close>

lemma js_slice_prefix: "0 \<le> e \<Longrightarrow> js_slice xs 0 e = take (nat e) xs"
  by (simp add: js_slice_def Let_def min_def)

lemma js_slice_last50:
  "50 < length xs \<Longrightarrow> js_slice xs (- 50) (int (length xs)) = last50 xs"
  by (simp add: js_slice_def Let_def last50_def max_def nat_diff_distrib)

lemma last50_short: "length xs \<le> 50 \<Longrightarrow> last50 xs = xs"
  by (simp add: last50_def)

lemma length_last50: "length (last50 xs) = min (length xs) 50"
  by (simp add: last50_def)

lemma last_last50: "xs \<noteq> [] \<Longrightarrow> last (last50 xs) = last xs"
  by (cases "length xs \<le> 50") (simp_all add: last50_def)

lemma js_slice_subset: "set (js_slice xs a b) \<subseteq> set xs"
  unfolding js_slice_def Let_def
  by (meson set_take_subset set_drop_subset subset_trans)

text \<open>What saveHistory writes.\<close>

lemma saveHistory_eq:
  "saveHistory st its t d =
     st\<lparr>history := last50 (js_slice (history st) 0 (historyIndex st + 1)
                              @ [\<lparr>h_items = its, h_tax = t, h_discount = d\<rparr>]),
        historyIndex := int (length (js_slice (history st) 0 (historyIndex st + 1))
                              + 1) - 1\<rparr>"
proof -
  define nh where "nh = js_slice (history st) 0 (historyIndex st + 1)
                              @ [\<lparr>h_items = its, h_tax = t, h_discount = d\<rparr>]"
  have len: "length nh = length (js_slice (history st) 0 (historyIndex st + 1)) + 1"
    by (simp add: nh_def)
  have "(if 50 < length nh then js_slice nh (- 50) (int (length nh)) else nh) = last50 nh"
    by (simp add: js_slice_last50 last50_short)
  then have "saveHistory st its t d = st\<lparr>history := last50 nh, historyIndex := int (length nh) - 1\<rparr>"
    unfolding saveHistory_def Let_def nh_def [symmetric] by simp
  then show ?thesis unfolding len unfolding nh_def .
qed

lemma saveHistory_history:
  assumes "- 1 \<le> historyIndex st"
  shows "history (saveHistory st its t d)
           = last50 (take (nat (historyIndex st + 1)) (history st)
                       @ [\<lparr>h_items = its, h_tax = t, h_discount = d\<rparr>])"
proof -
  have "0 \<le> historyIndex st + 1" using assms by simp
  then have p: "js_slice (history st) 0 (historyIndex st + 1) = take (nat (historyIndex st + 1)) (history st)"
    by (rule js_slice_prefix)
  show ?thesis by (simp add: saveHistory_eq p)
qed

lemma saveHistory_historyIndex:
  assumes "- 1 \<le> historyIndex st"
  shows "historyIndex (saveHistory st its t d)
           = int (min (nat (historyIndex st + 1)) (length (history st)))"
proof -
  have "0 \<le> historyIndex st + 1" using assms by simp
  then have p: "js_slice (history st) 0 (historyIndex st + 1) = take (nat (historyIndex st + 1)) (history st)"
    by (rule js_slice_prefix)
  show ?thesis by (simp add: saveHistory_eq p min_def)
qed

lemma saveHistory_frame:
  "objs (saveHistory st its t d) = objs st"
  "items (saveHistory st its t d) = items st"
  "tax (saveHistory st its t d) = tax st"
  "discount (saveHistory st its t d) = discount st"
  "currency (saveHistory st its t d) = currency st"
  "title (saveHistory st its t d) = title st"
  "invoiceNumber (saveHistory st its t d) = invoiceNumber st"
  "date (saveHistory st its t d) = date st"
  "errors (saveHistory st its t d) = errors st"
  "console (saveHistory st its t d) = console st"
  by (simp_all add: saveHistory_eq)

lemma saveHistory_last:
  "last (history (saveHistory st its t d)) = \<lparr>h_items = its, h_tax = t, h_discount = d\<rparr>"
  by (simp add: saveHistory_eq last_last50)

lemma set_last50: "set (last50 xs) \<subseteq> set xs"
  by (simp add: last50_def set_drop_subset)

lemma saveHistory_set:
  "set (history (saveHistory st its t d))
     \<subseteq> insert \<lparr>h_items = its, h_tax = t, h_discount = d\<rparr> (set (history st))"
proof -
  let ?nh = "js_slice (history st) 0 (historyIndex st + 1) @ [\<lparr>h_items = its, h_tax = t, h_discount = d\<rparr>]"
  have a: "set ?nh \<subseteq> insert \<lparr>h_items = its, h_tax = t, h_discount = d\<rparr> (set (history st))"
    using js_slice_subset [of "history st" 0 "historyIndex st + 1"] by auto
  have "set (history (saveHistory st its t d)) \<subseteq> set ?nh"
    using set_last50 [of ?nh] by (simp add: saveHistory_eq)
  with a show ?thesis by blast
qed

lemma saveHistory_cursor_inv:
  assumes "cursor_inv st"
  shows "cursor_inv (saveHistory st its t d)"
proof -
  from assms have lo: "- 1 \<le> historyIndex st" and len: "length (history st) \<le> 50"
    by (simp_all add: cursor_inv_def)
  show ?thesis
    unfolding cursor_inv_def
    by (simp add: saveHistory_history [OF lo] saveHistory_historyIndex [OF lo] length_last50)
      (use len in linarith)
qed

lemma record_all_snoc:
  "record_all st (hs @ [h]) = saveHistory (record_all st hs) (h_items h) (h_tax h) (h_discount h)"
  by (induction hs arbitrary: st) simp_all

lemma last50_snoc_last50: "last50 (last50 xs @ [x]) = last50 (xs @ [x])"
proof (cases "length xs \<le> 50")
  case True
  then show ?thesis by (simp add: last50_short)
next
  case False
  then have "length xs - 50 + 1 = Suc (length xs) - 50" by simp
  then show ?thesis using False by (simp add: last50_def)
qed

lemma record_all_from_empty:
  assumes "history st = []" "historyIndex st = - 1"
  shows "history (record_all st hs) = last50 hs
         \<and> historyIndex (record_all st hs) = int (min (length hs) 51) - 1"
proof (induction hs rule: rev_induct)
  case Nil
  show ?case using assms by (simp add: last50_def)
next
  case (snoc h hs)
  let ?s = "record_all st hs"
  from snoc have hist: "history ?s = last50 hs"
    and idx: "historyIndex ?s = int (min (length hs) 51) - 1" by simp_all
  have lo: "- 1 \<le> historyIndex ?s" using idx by simp
  have n: "nat (historyIndex ?s + 1) = min (length hs) 51" using idx by simp
  have all: "take (nat (historyIndex ?s + 1)) (history ?s) = last50 hs"
    by (simp add: n hist length_last50)
  have h: "\<lparr>h_items = h_items h, h_tax = h_tax h, h_discount = h_discount h\<rparr> = h" by simp
  have a: "history (record_all st (hs @ [h])) = last50 (hs @ [h])"
    by (simp add: record_all_snoc saveHistory_history [OF lo] all h last50_snoc_last50)
  have b: "historyIndex (record_all st (hs @ [h])) = int (min (length (hs @ [h])) 51) - 1"
    by (simp add: record_all_snoc saveHistory_historyIndex [OF lo] n hist length_last50)
  from a b show ?case by simp
qed

lemma undo_cursor_range:
  assumes "cursor_inv st" and "0 < historyIndex st" and "undo st = Inr st'"
  shows "0 \<le> historyIndex st' \<and> historyIndex st' < int (length (history st'))
         \<and> length (history st') \<le> 50"
  using assms by (auto simp: undo_def cursor_inv_def js_index_def split: if_splits)

lemma sample_one:
  "record_all (initial_state ''2026-01-01'') [\<lparr>h_items = [0], h_tax = Num 0, h_discount = Num 0\<rparr>]
     = (initial_state ''2026-01-01'')\<lparr>history := [\<lparr>h_items = [0], h_tax = Num 0, h_discount = Num 0\<rparr>],
          historyIndex := 0\<rparr>"
  by (simp add: saveHistory_def js_slice_def initial_state_def Let_def)

lemma sample_three:
  "record_all (initial_state ''2026-01-01'')
      [\<lparr>h_items = [0], h_tax = Num 0, h_discount = Num 0\<rparr>,
       \<lparr>h_items = [0], h_tax = Num 5, h_discount = Num 0\<rparr>,
       \<lparr>h_items = [0], h_tax = Num 7, h_discount = Num 0\<rparr>]
     = (initial_state ''2026-01-01'')\<lparr>history :=
         [\<lparr>h_items = [0], h_tax = Num 0, h_discount = Num 0\<rparr>,
          \<lparr>h_items = [0], h_tax = Num 5, h_discount = Num 0\<rparr>,
          \<lparr>h_items = [0], h_tax = Num 7, h_discount = Num 0\<rparr>],
          historyIndex := 2\<rparr>"
  by (simp add: saveHistory_def js_slice_def initial_state_def Let_def)

text \<open>
  C2, as the code has it: a run of more than 50 \<open>saveHistory\<close> calls from the first
  render leaves exactly the 50 most recent snapshots in the log, but the cursor is 50, the
  length of the log and one past its last entry: \<open>setHistoryIndex\<close> is given the
  length the new log had before it was cut to 50. The claimed invariant
  \<open>cursor \<le> length - 1\<close> does not hold there, and the log has no entry at the cursor.
\<close>

theorem record_overflow_cursor:
  assumes "history st = []" and "historyIndex st = - 1" and "50 < length hs"
  shows "history (record_all st hs) = last50 hs
         \<and> length (history (record_all st hs)) = 50
         \<and> historyIndex (record_all st hs) = 50
         \<and> js_index (history (record_all st hs)) (historyIndex (record_all st hs)) = None"
proof -
  from record_all_from_empty [OF assms(1,2), of hs]
  have a: "history (record_all st hs) = last50 hs"
    and b: "historyIndex (record_all st hs) = int (min (length hs) 51) - 1" by simp_all
  have c: "length (history (record_all st hs)) = 50"
    using assms(3) by (simp add: a length_last50)
  have d: "historyIndex (record_all st hs) = 50" using assms(3) b by simp
  have e: "js_index (history (record_all st hs)) (historyIndex (record_all st hs)) = None"
    by (simp add: js_index_def c d)
  from a c d e show ?thesis by simp
qed

theorem record_overflow_cursor_witness:
  "history (initial_state ''2026-01-01'') = []
   \<and> historyIndex (initial_state ''2026-01-01'') = - 1
   \<and> 50 < length (replicate 51 \<lparr>h_items = [0], h_tax = Num 0, h_discount = Num 0\<rparr>)
   \<and> length (history (record_all (initial_state ''2026-01-01'')
                (replicate 51 \<lparr>h_items = [0], h_tax = Num 0, h_discount = Num 0\<rparr>))) = 50
   \<and> historyIndex (record_all (initial_state ''2026-01-01'')
                (replicate 51 \<lparr>h_items = [0], h_tax = Num 0, h_discount = Num 0\<rparr>)) = 50"
proof -
  have h1: "history (initial_state ''2026-01-01'') = []"
    and h2: "historyIndex (initial_state ''2026-01-01'') = - 1"
    by (simp_all add: initial_state_def)
  have h3: "50 < length (replicate 51 \<lparr>h_items = [0], h_tax = Num 0, h_discount = Num 0\<rparr>)"
    by simp
  from record_overflow_cursor [OF h1 h2 h3] h1 h2 h3 show ?thesis by blast
qed

text \<open>
  C4: in every state the component reaches (the cursor between \<open>-1\<close> and the length of
  the log), \<open>undo\<close> with a cursor \<open>\<le> 0\<close> and \<open>redo\<close> with a cursor
  \<open>\<ge> length - 1\<close> return the state as it is; otherwise \<open>undo\<close> moves the cursor
  down by one, \<open>redo\<close> up by one, and the live items, tax and discount become those of
  the snapshot at the new cursor, with nothing else changed.
\<close>

theorem undo_redo_behaviour:
  assumes "cursor_inv st"
  shows "(historyIndex st \<le> 0 \<longrightarrow> undo st = Inr st)
       \<and> (int (length (history st)) - 1 \<le> historyIndex st \<longrightarrow> redo st = Inr st)
       \<and> (0 < historyIndex st \<longrightarrow>
            undo st = Inr (st\<lparr>historyIndex := historyIndex st - 1,
                              items := h_items (history st ! nat (historyIndex st - 1)),
                              tax := h_tax (history st ! nat (historyIndex st - 1)),
                              discount := h_discount (history st ! nat (historyIndex st - 1))\<rparr>))
       \<and> (historyIndex st < int (length (history st)) - 1 \<longrightarrow>
            redo st = Inr (st\<lparr>historyIndex := historyIndex st + 1,
                              items := h_items (history st ! nat (historyIndex st + 1)),
                              tax := h_tax (history st ! nat (historyIndex st + 1)),
                              discount := h_discount (history st ! nat (historyIndex st + 1))\<rparr>))"
proof -
  from assms have lo: "- 1 \<le> historyIndex st" and hi: "historyIndex st \<le> int (length (history st))"
    by (simp_all add: cursor_inv_def)
  have a: "historyIndex st \<le> 0 \<longrightarrow> undo st = Inr st"
    by (simp add: undo_def)
  have b: "int (length (history st)) - 1 \<le> historyIndex st \<longrightarrow> redo st = Inr st"
    by (simp add: redo_def)
  have c: "0 < historyIndex st \<longrightarrow>
            undo st = Inr (st\<lparr>historyIndex := historyIndex st - 1,
                              items := h_items (history st ! nat (historyIndex st - 1)),
                              tax := h_tax (history st ! nat (historyIndex st - 1)),
                              discount := h_discount (history st ! nat (historyIndex st - 1))\<rparr>)"
    using hi by (simp add: undo_def js_index_def)
  have d: "historyIndex st < int (length (history st)) - 1 \<longrightarrow>
            redo st = Inr (st\<lparr>historyIndex := historyIndex st + 1,
                              items := h_items (history st ! nat (historyIndex st + 1)),
                              tax := h_tax (history st ! nat (historyIndex st + 1)),
                              discount := h_discount (history st ! nat (historyIndex st + 1))\<rparr>)"
    using lo by (simp add: redo_def js_index_def)
  from a b c d show ?thesis by blast
qed

theorem undo_redo_behaviour_witness:
  "cursor_inv (record_all (initial_state ''2026-01-01'') [\<lparr>h_items = [0], h_tax = Num 0, h_discount = Num 0\<rparr>])
   \<and> undo (record_all (initial_state ''2026-01-01'') [\<lparr>h_items = [0], h_tax = Num 0, h_discount = Num 0\<rparr>])
       = Inr (record_all (initial_state ''2026-01-01'') [\<lparr>h_items = [0], h_tax = Num 0, h_discount = Num 0\<rparr>])
   \<and> redo (record_all (initial_state ''2026-01-01'') [\<lparr>h_items = [0], h_tax = Num 0, h_discount = Num 0\<rparr>])
       = Inr (record_all (initial_state ''2026-01-01'') [\<lparr>h_items = [0], h_tax = Num 0, h_discount = Num 0\<rparr>])
   \<and> cursor_inv ((record_all (initial_state ''2026-01-01'')
      [\<lparr>h_items = [0], h_tax = Num 0, h_discount = Num 0\<rparr>,
       \<lparr>h_items = [0], h_tax = Num 5, h_discount = Num 0\<rparr>,
       \<lparr>h_items = [0], h_tax = Num 7, h_discount = Num 0\<rparr>])\<lparr>historyIndex := 1\<rparr>)
   \<and> undo ((record_all (initial_state ''2026-01-01'')
      [\<lparr>h_items = [0], h_tax = Num 0, h_discount = Num 0\<rparr>,
       \<lparr>h_items = [0], h_tax = Num 5, h_discount = Num 0\<rparr>,
       \<lparr>h_items = [0], h_tax = Num 7, h_discount = Num 0\<rparr>])\<lparr>historyIndex := 1\<rparr>)
       = Inr ((record_all (initial_state ''2026-01-01'')
      [\<lparr>h_items = [0], h_tax = Num 0, h_discount = Num 0\<rparr>,
       \<lparr>h_items = [0], h_tax = Num 5, h_discount = Num 0\<rparr>,
       \<lparr>h_items = [0], h_tax = Num 7, h_discount = Num 0\<rparr>])
         \<lparr>historyIndex := 0, items := [0], tax := Num 0, discount := Num 0\<rparr>)
   \<and> redo ((record_all (initial_state ''2026-01-01'')
      [\<lparr>h_items = [0], h_tax = Num 0, h_discount = Num 0\<rparr>,
       \<lparr>h_items = [0], h_tax = Num 5, h_discount = Num 0\<rparr>,
       \<lparr>h_items = [0], h_tax = Num 7, h_discount = Num 0\<rparr>])\<lparr>historyIndex := 1\<rparr>)
       = Inr ((record_all (initial_state ''2026-01-01'')
      [\<lparr>h_items = [0], h_tax = Num 0, h_discount = Num 0\<rparr>,
       \<lparr>h_items = [0], h_tax = Num 5, h_discount = Num 0\<rparr>,
       \<lparr>h_items = [0], h_tax = Num 7, h_discount = Num 0\<rparr>])
         \<lparr>historyIndex := 2, items := [0], tax := Num 7, discount := Num 0\<rparr>)"
proof -
  let ?A = "record_all (initial_state ''2026-01-01'') [\<lparr>h_items = [0], h_tax = Num 0, h_discount = Num 0\<rparr>]"
  let ?B = "(record_all (initial_state ''2026-01-01'')
      [\<lparr>h_items = [0], h_tax = Num 0, h_discount = Num 0\<rparr>,
       \<lparr>h_items = [0], h_tax = Num 5, h_discount = Num 0\<rparr>,
       \<lparr>h_items = [0], h_tax = Num 7, h_discount = Num 0\<rparr>])\<lparr>historyIndex := 1\<rparr>"
  have hA: "cursor_inv ?A" unfolding sample_one by (simp add: cursor_inv_def)
  have hB: "cursor_inv ?B" unfolding sample_three by (simp add: cursor_inv_def)
  have iA: "historyIndex ?A \<le> 0" "int (length (history ?A)) - 1 \<le> historyIndex ?A"
    unfolding sample_one by simp_all
  have iB: "0 < historyIndex ?B" "historyIndex ?B < int (length (history ?B)) - 1"
    unfolding sample_three by simp_all
  from undo_redo_behaviour [OF hA] iA have a: "undo ?A = Inr ?A" and b: "redo ?A = Inr ?A"
    by blast+
  from undo_redo_behaviour [OF hB] iB
  have c: "undo ?B = Inr (?B\<lparr>historyIndex := historyIndex ?B - 1,
                              items := h_items (history ?B ! nat (historyIndex ?B - 1)),
                              tax := h_tax (history ?B ! nat (historyIndex ?B - 1)),
                              discount := h_discount (history ?B ! nat (historyIndex ?B - 1))\<rparr>)"
    and d: "redo ?B = Inr (?B\<lparr>historyIndex := historyIndex ?B + 1,
                              items := h_items (history ?B ! nat (historyIndex ?B + 1)),
                              tax := h_tax (history ?B ! nat (historyIndex ?B + 1)),
                              discount := h_discount (history ?B ! nat (historyIndex ?B + 1))\<rparr>)"
    by blast+
  have c': "undo ?B = Inr ((record_all (initial_state ''2026-01-01'')
      [\<lparr>h_items = [0], h_tax = Num 0, h_discount = Num 0\<rparr>,
       \<lparr>h_items = [0], h_tax = Num 5, h_discount = Num 0\<rparr>,
       \<lparr>h_items = [0], h_tax = Num 7, h_discount = Num 0\<rparr>])
         \<lparr>historyIndex := 0, items := [0], tax := Num 0, discount := Num 0\<rparr>)"
    unfolding c unfolding sample_three by simp
  have d': "redo ?B = Inr ((record_all (initial_state ''2026-01-01'')
      [\<lparr>h_items = [0], h_tax = Num 0, h_discount = Num 0\<rparr>,
       \<lparr>h_items = [0], h_tax = Num 5, h_discount = Num 0\<rparr>,
       \<lparr>h_items = [0], h_tax = Num 7, h_discount = Num 0\<rparr>])
         \<lparr>historyIndex := 2, items := [0], tax := Num 7, discount := Num 0\<rparr>)"
    unfolding d unfolding sample_three by simp
  from hA a b hB c' d' show ?thesis by blast
qed

text \<open>
  C6: in every state the component reaches, wherever earlier \<open>undo\<close> calls have left
  the cursor, \<open>saveHistory\<close> keeps the entries up to the cursor, drops the ones after
  it, appends the new snapshot (and keeps the last 50), and a \<open>redo\<close> right after it
  returns the state as it is.
\<close>

theorem record_discards_redo_branch:
  assumes "cursor_inv st"
  shows "history (saveHistory st its t d)
           = last50 (take (nat (historyIndex st + 1)) (history st)
                       @ [\<lparr>h_items = its, h_tax = t, h_discount = d\<rparr>])
         \<and> redo (saveHistory st its t d) = Inr (saveHistory st its t d)"
proof -
  from assms have lo: "- 1 \<le> historyIndex st" by (simp add: cursor_inv_def)
  have a: "history (saveHistory st its t d)
           = last50 (take (nat (historyIndex st + 1)) (history st)
                       @ [\<lparr>h_items = its, h_tax = t, h_discount = d\<rparr>])"
    by (rule saveHistory_history [OF lo])
  have "length (history (saveHistory st its t d))
          = min (min (nat (historyIndex st + 1)) (length (history st)) + 1) 50"
    by (simp only: a length_last50 length_append length_take list.size)
  then have len: "length (history (saveHistory st its t d))
               \<le> min (nat (historyIndex st + 1)) (length (history st)) + 1"
    by linarith
  have idx: "historyIndex (saveHistory st its t d)
               = int (min (nat (historyIndex st + 1)) (length (history st)))"
    by (rule saveHistory_historyIndex [OF lo])
  have "\<not> historyIndex (saveHistory st its t d) < int (length (history (saveHistory st its t d))) - 1"
    using len idx by linarith
  then have b: "redo (saveHistory st its t d) = Inr (saveHistory st its t d)"
    by (simp add: redo_def)
  from a b show ?thesis by simp
qed

theorem record_discards_redo_branch_witness:
  "cursor_inv ((record_all (initial_state ''2026-01-01'')
      [\<lparr>h_items = [0], h_tax = Num 0, h_discount = Num 0\<rparr>,
       \<lparr>h_items = [0], h_tax = Num 5, h_discount = Num 0\<rparr>,
       \<lparr>h_items = [0], h_tax = Num 7, h_discount = Num 0\<rparr>])\<lparr>historyIndex := 0\<rparr>)
   \<and> history (saveHistory ((record_all (initial_state ''2026-01-01'')
      [\<lparr>h_items = [0], h_tax = Num 0, h_discount = Num 0\<rparr>,
       \<lparr>h_items = [0], h_tax = Num 5, h_discount = Num 0\<rparr>,
       \<lparr>h_items = [0], h_tax = Num 7, h_discount = Num 0\<rparr>])\<lparr>historyIndex := 0\<rparr>) [0] (Num 9) (Num 0))
       = [\<lparr>h_items = [0], h_tax = Num 0, h_discount = Num 0\<rparr>,
          \<lparr>h_items = [0], h_tax = Num 9, h_discount = Num 0\<rparr>]
   \<and> redo (saveHistory ((record_all (initial_state ''2026-01-01'')
      [\<lparr>h_items = [0], h_tax = Num 0, h_discount = Num 0\<rparr>,
       \<lparr>h_items = [0], h_tax = Num 5, h_discount = Num 0\<rparr>,
       \<lparr>h_items = [0], h_tax = Num 7, h_discount = Num 0\<rparr>])\<lparr>historyIndex := 0\<rparr>) [0] (Num 9) (Num 0))
      = Inr (saveHistory ((record_all (initial_state ''2026-01-01'')
      [\<lparr>h_items = [0], h_tax = Num 0, h_discount = Num 0\<rparr>,
       \<lparr>h_items = [0], h_tax = Num 5, h_discount = Num 0\<rparr>,
       \<lparr>h_items = [0], h_tax = Num 7, h_discount = Num 0\<rparr>])\<lparr>historyIndex := 0\<rparr>) [0] (Num 9) (Num 0))"
proof -
  let ?B = "(record_all (initial_state ''2026-01-01'')
      [\<lparr>h_items = [0], h_tax = Num 0, h_discount = Num 0\<rparr>,
       \<lparr>h_items = [0], h_tax = Num 5, h_discount = Num 0\<rparr>,
       \<lparr>h_items = [0], h_tax = Num 7, h_discount = Num 0\<rparr>])\<lparr>historyIndex := 0\<rparr>"
  have h: "cursor_inv ?B"
    unfolding sample_three by (simp add: cursor_inv_def)
  from record_discards_redo_branch [OF h, of "[0]" "Num 9" "Num 0"]
  have a: "history (saveHistory ?B [0] (Num 9) (Num 0))
           = last50 (take (nat (historyIndex ?B + 1)) (history ?B)
                       @ [\<lparr>h_items = [0], h_tax = Num 9, h_discount = Num 0\<rparr>])"
    and b: "redo (saveHistory ?B [0] (Num 9) (Num 0)) = Inr (saveHistory ?B [0] (Num 9) (Num 0))"
    by blast+
  have a': "history (saveHistory ?B [0] (Num 9) (Num 0))
       = [\<lparr>h_items = [0], h_tax = Num 0, h_discount = Num 0\<rparr>,
          \<lparr>h_items = [0], h_tax = Num 9, h_discount = Num 0\<rparr>]"
    unfolding a unfolding sample_three by (simp add: last50_def)
  from h a' b show ?thesis by blast
qed

text \<open>
  C9: \<open>undo\<close> and \<open>redo\<close> change nothing but the cursor and the live items, tax and
  discount: currency, title, invoice number and date stay, and so does the log. The
  snapshot \<open>saveHistory\<close> appends holds the items, the tax and the discount it was
  given and nothing else; the log it writes does not depend on currency, title, invoice
  number or date, and it leaves these four as they were.
\<close>

theorem history_excludes_header_fields:
  "(undo st = Inr st' \<longrightarrow>
      st'\<lparr>historyIndex := historyIndex st, items := items st, tax := tax st, discount := discount st\<rparr> = st
      \<and> currency st' = currency st \<and> title st' = title st
      \<and> invoiceNumber st' = invoiceNumber st \<and> date st' = date st
      \<and> history st' = history st)
   \<and> (redo st = Inr st' \<longrightarrow>
      st'\<lparr>historyIndex := historyIndex st, items := items st, tax := tax st, discount := discount st\<rparr> = st
      \<and> currency st' = currency st \<and> title st' = title st
      \<and> invoiceNumber st' = invoiceNumber st \<and> date st' = date st
      \<and> history st' = history st)
   \<and> last (history (saveHistory st its t d)) = \<lparr>h_items = its, h_tax = t, h_discount = d\<rparr>
   \<and> history (saveHistory (st\<lparr>currency := c, title := ti, invoiceNumber := n, date := dt\<rparr>) its t d)
        = history (saveHistory st its t d)
   \<and> currency (saveHistory st its t d) = currency st
   \<and> title (saveHistory st its t d) = title st
   \<and> invoiceNumber (saveHistory st its t d) = invoiceNumber st
   \<and> date (saveHistory st its t d) = date st"
proof -
  have a: "undo st = Inr st' \<longrightarrow>
      st'\<lparr>historyIndex := historyIndex st, items := items st, tax := tax st, discount := discount st\<rparr> = st
      \<and> currency st' = currency st \<and> title st' = title st
      \<and> invoiceNumber st' = invoiceNumber st \<and> date st' = date st
      \<and> history st' = history st"
    by (auto simp: undo_def split: if_splits option.splits)
  have b: "redo st = Inr st' \<longrightarrow>
      st'\<lparr>historyIndex := historyIndex st, items := items st, tax := tax st, discount := discount st\<rparr> = st
      \<and> currency st' = currency st \<and> title st' = title st
      \<and> invoiceNumber st' = invoiceNumber st \<and> date st' = date st
      \<and> history st' = history st"
    by (auto simp: redo_def split: if_splits option.splits)
  have c: "history (saveHistory (st\<lparr>currency := c, title := ti, invoiceNumber := n, date := dt\<rparr>) its t d)
        = history (saveHistory st its t d)"
    by (simp add: saveHistory_eq)
  from a b c saveHistory_last [of st its t d] saveHistory_frame [of st its t d]
  show ?thesis by simp
qed

theorem history_excludes_header_fields_witness:
  "undo ((record_all (initial_state ''2026-01-01'')
      [\<lparr>h_items = [0], h_tax = Num 0, h_discount = Num 0\<rparr>,
       \<lparr>h_items = [0], h_tax = Num 5, h_discount = Num 0\<rparr>,
       \<lparr>h_items = [0], h_tax = Num 7, h_discount = Num 0\<rparr>])\<lparr>title := ''Offer''\<rparr>)
     = Inr ((record_all (initial_state ''2026-01-01'')
      [\<lparr>h_items = [0], h_tax = Num 0, h_discount = Num 0\<rparr>,
       \<lparr>h_items = [0], h_tax = Num 5, h_discount = Num 0\<rparr>,
       \<lparr>h_items = [0], h_tax = Num 7, h_discount = Num 0\<rparr>])\<lparr>title := ''Offer'', historyIndex := 1, tax := Num 5\<rparr>)
   \<and> title ((record_all (initial_state ''2026-01-01'')
      [\<lparr>h_items = [0], h_tax = Num 0, h_discount = Num 0\<rparr>,
       \<lparr>h_items = [0], h_tax = Num 5, h_discount = Num 0\<rparr>,
       \<lparr>h_items = [0], h_tax = Num 7, h_discount = Num 0\<rparr>])\<lparr>title := ''Offer'', historyIndex := 1, tax := Num 5\<rparr>)
       = ''Offer''
   \<and> redo ((record_all (initial_state ''2026-01-01'')
      [\<lparr>h_items = [0], h_tax = Num 0, h_discount = Num 0\<rparr>,
       \<lparr>h_items = [0], h_tax = Num 5, h_discount = Num 0\<rparr>,
       \<lparr>h_items = [0], h_tax = Num 7, h_discount = Num 0\<rparr>])\<lparr>title := ''Offer'', historyIndex := 1, tax := Num 5\<rparr>)
     = Inr ((record_all (initial_state ''2026-01-01'')
      [\<lparr>h_items = [0], h_tax = Num 0, h_discount = Num 0\<rparr>,
       \<lparr>h_items = [0], h_tax = Num 5, h_discount = Num 0\<rparr>,
       \<lparr>h_items = [0], h_tax = Num 7, h_discount = Num 0\<rparr>])\<lparr>title := ''Offer'', tax := Num 7\<rparr>)
   \<and> title ((record_all (initial_state ''2026-01-01'')
      [\<lparr>h_items = [0], h_tax = Num 0, h_discount = Num 0\<rparr>,
       \<lparr>h_items = [0], h_tax = Num 5, h_discount = Num 0\<rparr>,
       \<lparr>h_items = [0], h_tax = Num 7, h_discount = Num 0\<rparr>])\<lparr>title := ''Offer'', tax := Num 7\<rparr>)
       = ''Offer''"
proof -
  let ?C = "(record_all (initial_state ''2026-01-01'')
      [\<lparr>h_items = [0], h_tax = Num 0, h_discount = Num 0\<rparr>,
       \<lparr>h_items = [0], h_tax = Num 5, h_discount = Num 0\<rparr>,
       \<lparr>h_items = [0], h_tax = Num 7, h_discount = Num 0\<rparr>])\<lparr>title := ''Offer''\<rparr>"
  let ?U = "(record_all (initial_state ''2026-01-01'')
      [\<lparr>h_items = [0], h_tax = Num 0, h_discount = Num 0\<rparr>,
       \<lparr>h_items = [0], h_tax = Num 5, h_discount = Num 0\<rparr>,
       \<lparr>h_items = [0], h_tax = Num 7, h_discount = Num 0\<rparr>])\<lparr>title := ''Offer'', historyIndex := 1, tax := Num 5\<rparr>"
  let ?R = "(record_all (initial_state ''2026-01-01'')
      [\<lparr>h_items = [0], h_tax = Num 0, h_discount = Num 0\<rparr>,
       \<lparr>h_items = [0], h_tax = Num 5, h_discount = Num 0\<rparr>,
       \<lparr>h_items = [0], h_tax = Num 7, h_discount = Num 0\<rparr>])\<lparr>title := ''Offer'', tax := Num 7\<rparr>"
  have u: "undo ?C = Inr ?U"
    unfolding sample_three by (simp add: undo_def js_index_def initial_state_def)
  have r: "redo ?U = Inr ?R"
    unfolding sample_three by (simp add: redo_def js_index_def initial_state_def)
  from history_excludes_header_fields [where st = ?C and st' = ?U] u
  have a: "title ?U = title ?C" by blast
  from history_excludes_header_fields [where st = ?U and st' = ?R] r
  have b: "title ?R = title ?U" by blast
  have t: "title ?C = ''Offer''" by simp
  from u r a b t show ?thesis by simp
qed

section \<open>Items and validation messages\<close>

lemma nat_String_nonempty: "nat_String n \<noteq> []"
  by (subst nat_String.simps) simp

lemma digit_char_inj:
  assumes "a < 10" "b < 10" "digit_char a = digit_char b"
  shows "a = b"
proof -
  have "48 + a \<in> {0..<256}" and "48 + b \<in> {0..<256}" using assms(1,2) by simp_all
  moreover have "char_of (48 + a) = (char_of (48 + b) :: char)"
    using assms(3) by (simp only: digit_char_def)
  ultimately have "48 + a = 48 + b"
    using inj_on_char_of_nat by (meson inj_onD)
  then show ?thesis by simp
qed

lemma nat_String_inj: "nat_String n = nat_String m \<Longrightarrow> n = m"
proof (induction n arbitrary: m rule: nat_String.induct)
  case (1 n)
  show ?case
  proof (cases "n < 10")
    case small: True
    then have n: "nat_String n = [digit_char n]" by (subst nat_String.simps) simp
    show ?thesis
    proof (cases "m < 10")
      case True
      then have "nat_String m = [digit_char m]" by (subst nat_String.simps) simp
      with n "1.prems" have "digit_char n = digit_char m" by simp
      with small True show ?thesis by (rule digit_char_inj)
    next
      case False
      then have "nat_String m = nat_String (m div 10) @ [digit_char (m mod 10)]"
        by (subst nat_String.simps) simp
      with n "1.prems" have "nat_String (m div 10) = []" by simp
      then show ?thesis using nat_String_nonempty by blast
    qed
  next
    case big: False
    then have n: "nat_String n = nat_String (n div 10) @ [digit_char (n mod 10)]"
      by (subst nat_String.simps) simp
    show ?thesis
    proof (cases "m < 10")
      case True
      then have "nat_String m = [digit_char m]" by (subst nat_String.simps) simp
      with n "1.prems" have "nat_String (n div 10) = []" by simp
      then show ?thesis using nat_String_nonempty by blast
    next
      case False
      then have "nat_String m = nat_String (m div 10) @ [digit_char (m mod 10)]"
        by (subst nat_String.simps) simp
      with n "1.prems" have eq: "nat_String (n div 10) = nat_String (m div 10)"
        and d: "digit_char (n mod 10) = digit_char (m mod 10)" by simp_all
      from "1.IH" [OF big eq] have q: "n div 10 = m div 10" .
      have r: "n mod 10 = m mod 10" by (rule digit_char_inj [OF _ _ d]) simp_all
      from q r show ?thesis by (metis div_mult_mod_eq)
    qed
  qed
qed

lemma key_eq [simp]:
  "quantity_key i = quantity_key j \<longleftrightarrow> i = j"
  "price_key i = price_key j \<longleftrightarrow> i = j"
  "quantity_key i \<noteq> price_key j"
  "price_key i \<noteq> quantity_key j"
  by (auto simp: quantity_key_def price_key_def dest: nat_String_inj)

lemma filter_index_enumerate_all:
  "n < k \<Longrightarrow> map snd (filter (\<lambda>(i, x). i \<noteq> n) (enumerate k xs)) = xs"
  by (induction xs arbitrary: k) auto

lemma filter_index_enumerate:
  "map snd (filter (\<lambda>(i, x). i \<noteq> n + idx) (enumerate n xs)) = take idx xs @ drop (Suc idx) xs"
proof (induction xs arbitrary: n idx)
  case Nil
  show ?case by simp
next
  case (Cons x xs)
  show ?case
  proof (cases idx)
    case 0
    then show ?thesis by (simp add: filter_index_enumerate_all)
  next
    case (Suc k)
    have "map snd (filter (\<lambda>(i, x). i \<noteq> Suc n + k) (enumerate (Suc n) xs)) = take k xs @ drop (Suc k) xs"
      by (rule Cons.IH)
    then show ?thesis using Suc by simp
  qed
qed

lemma filter_index:
  "map snd (filter (\<lambda>(i, x). i \<noteq> idx) (enumerate 0 xs)) = take idx xs @ drop (Suc idx) xs"
  using filter_index_enumerate [of 0 idx xs] by simp

lemma removeItem_many:
  assumes "1 < length (items st)"
  shows "removeItem st idx =
     saveHistory (st\<lparr>items := take idx (items st) @ drop (Suc idx) (items st),
                     errors := AList.delete (price_key idx) (AList.delete (quantity_key idx) (errors st))\<rparr>)
       (take idx (items st) @ drop (Suc idx) (items st)) (tax st) (discount st)"
  using assms by (simp add: removeItem_def Let_def filter_index)

lemma nonempty_saveHistory:
  assumes "list_all (\<lambda>h. h_items h \<noteq> []) (history st)" and "its \<noteq> []"
  shows "list_all (\<lambda>h. h_items h \<noteq> []) (history (saveHistory st its t d))"
  using assms saveHistory_set [of st its t d] by (auto simp: list_all_iff)

lemma js_index_mem: "js_index xs i = Some x \<Longrightarrow> x \<in> set xs"
  by (auto simp: js_index_def split: if_splits)

lemma updateItem_Inr:
  assumes "updateItem ToNumber st idx f v = Inr st'"
  shows "\<exists>ob er. st' = saveHistory (st\<lparr>objs := ob, items := items st, errors := er\<rparr>)
                           (items st) (tax st) (discount st)"
proof -
  from assms have "\<not> length (items st) \<le> idx"
    by (auto simp: updateItem_def Let_def split: if_splits)
  with assms show ?thesis
    unfolding updateItem_def Let_def by (simp only: if_False sum.inject) blast
qed

lemma apply_op_nonempty:
  assumes "nonempty_inv st" and "apply_op ToNumber st ev = Inr st'"
  shows "nonempty_inv st'"
proof -
  from assms(1) have it: "items st \<noteq> []" and hs: "list_all (\<lambda>h. h_items h \<noteq> []) (history st)"
    by (simp_all add: nonempty_inv_def)
  show ?thesis
  proof (cases ev)
    case (UpdateItem idx f v)
    with assms(2) have "updateItem ToNumber st idx f v = Inr st'" by simp
    from updateItem_Inr [OF this] obtain ob er
      where st': "st' = saveHistory (st\<lparr>objs := ob, items := items st, errors := er\<rparr>)
                           (items st) (tax st) (discount st)" by blast
    have "list_all (\<lambda>h. h_items h \<noteq> []) (history (st\<lparr>objs := ob, items := items st, errors := er\<rparr>))"
      using hs by simp
    from nonempty_saveHistory [OF this it] it show ?thesis
      unfolding st' nonempty_inv_def by (simp add: saveHistory_frame)
  next
    case AddItem
    with assms(2) have st': "st' = addItem st" by simp
    show ?thesis
      unfolding st' addItem_def Let_def nonempty_inv_def
      using hs by (simp add: saveHistory_frame nonempty_saveHistory)
  next
    case (RemoveItem idx)
    with assms(2) have st': "st' = removeItem st idx" by simp
    show ?thesis
    proof (cases "1 < length (items st)")
      case True
      have L: "length (take idx (items st) @ drop (Suc idx) (items st))
                 = min (length (items st)) idx + (length (items st) - Suc idx)"
        by simp
      have "0 < min (length (items st)) idx + (length (items st) - Suc idx)"
        using True by arith
      then have "0 < length (take idx (items st) @ drop (Suc idx) (items st))"
        by (simp only: L)
      then have ne: "take idx (items st) @ drop (Suc idx) (items st) \<noteq> []"
        using length_greater_0_conv by blast
      show ?thesis
        unfolding st' removeItem_many [OF True] nonempty_inv_def
        using hs ne by (simp add: saveHistory_frame nonempty_saveHistory)
    next
      case False
      then have "removeItem st idx = st" by (simp add: removeItem_def)
      with st' assms(1) show ?thesis by simp
    qed
  next
    case (TaxChange v)
    with assms(2) have st': "st' = onTaxChange ToNumber st v" by simp
    show ?thesis
      unfolding st' onTaxChange_def nonempty_inv_def
      using hs it by (simp add: saveHistory_frame nonempty_saveHistory)
  next
    case (DiscountChange v)
    with assms(2) have st': "st' = onDiscountChange ToNumber st v" by simp
    show ?thesis
      unfolding st' onDiscountChange_def nonempty_inv_def
      using hs it by (simp add: saveHistory_frame nonempty_saveHistory)
  next
    case (SetCurrency c)
    with assms show ?thesis by (auto simp: nonempty_inv_def)
  next
    case (SetTitle t)
    with assms show ?thesis by (auto simp: nonempty_inv_def)
  next
    case (SetInvoiceNumber n)
    with assms show ?thesis by (auto simp: nonempty_inv_def)
  next
    case (SetDate d)
    with assms show ?thesis by (auto simp: nonempty_inv_def)
  next
    case Undo
    with assms(2) have u: "undo st = Inr st'" by simp
    show ?thesis
    proof (cases "0 < historyIndex st")
      case True
      with u obtain h where h: "js_index (history st) (historyIndex st - 1) = Some h"
        and st': "st' = st\<lparr>historyIndex := historyIndex st - 1, items := h_items h,
                     tax := h_tax h, discount := h_discount h\<rparr>"
        by (auto simp: undo_def split: option.splits)
      from js_index_mem [OF h] hs have "h_items h \<noteq> []" by (simp add: list_all_iff)
      then show ?thesis using hs by (simp add: st' nonempty_inv_def)
    next
      case False
      with u have "st' = st" by (simp add: undo_def)
      with assms(1) show ?thesis by simp
    qed
  next
    case Redo
    with assms(2) have u: "redo st = Inr st'" by simp
    show ?thesis
    proof (cases "historyIndex st < int (length (history st)) - 1")
      case True
      with u obtain h where h: "js_index (history st) (historyIndex st + 1) = Some h"
        and st': "st' = st\<lparr>historyIndex := historyIndex st + 1, items := h_items h,
                     tax := h_tax h, discount := h_discount h\<rparr>"
        by (auto simp: redo_def split: option.splits)
      from js_index_mem [OF h] hs have "h_items h \<noteq> []" by (simp add: list_all_iff)
      then show ?thesis using hs by (simp add: st' nonempty_inv_def)
    next
      case False
      with u have "st' = st" by (simp add: redo_def)
      with assms(1) show ?thesis by simp
    qed
  qed
qed

lemma removeItem_errors:
  assumes "1 < length (items st)"
  shows "map_of (errors (removeItem st idx)) k
           = (if k = quantity_key idx \<or> k = price_key idx then None else map_of (errors st) k)"
  by (simp add: removeItem_many [OF assms] saveHistory_frame delete_conv')

lemma apply_op_cursor_inv:
  assumes "cursor_inv st" and "apply_op ToNumber st ev = Inr st'"
  shows "cursor_inv st'"
proof -
  have upd: "\<And>(X::app) its t d. history X = history st \<Longrightarrow> historyIndex X = historyIndex st
                \<Longrightarrow> cursor_inv (saveHistory X its t d)"
  proof -
    fix X :: app and its t d
    assume "history X = history st" "historyIndex X = historyIndex st"
    with assms(1) have "cursor_inv X" by (simp add: cursor_inv_def)
    then show "cursor_inv (saveHistory X its t d)" by (rule saveHistory_cursor_inv)
  qed
  show ?thesis
  proof (cases ev)
    case (UpdateItem idx f v)
    with assms(2) have "updateItem ToNumber st idx f v = Inr st'" by simp
    from updateItem_Inr [OF this] obtain ob er
      where st': "st' = saveHistory (st\<lparr>objs := ob, items := items st, errors := er\<rparr>)
                           (items st) (tax st) (discount st)" by blast
    show ?thesis unfolding st' by (rule upd) simp_all
  next
    case AddItem
    with assms(2) have st': "st' = addItem st" by simp
    show ?thesis unfolding st' addItem_def Let_def by (rule upd) simp_all
  next
    case (RemoveItem idx)
    with assms(2) have st': "st' = removeItem st idx" by simp
    show ?thesis
    proof (cases "1 < length (items st)")
      case True
      show ?thesis unfolding st' removeItem_many [OF True] by (rule upd) simp_all
    next
      case False
      then have "removeItem st idx = st" by (simp add: removeItem_def)
      with st' assms(1) show ?thesis by simp
    qed
  next
    case (TaxChange v)
    with assms(2) have st': "st' = onTaxChange ToNumber st v" by simp
    show ?thesis unfolding st' onTaxChange_def by (rule upd) simp_all
  next
    case (DiscountChange v)
    with assms(2) have st': "st' = onDiscountChange ToNumber st v" by simp
    show ?thesis unfolding st' onDiscountChange_def by (rule upd) simp_all
  next
    case (SetCurrency c)
    with assms show ?thesis by (auto simp: cursor_inv_def)
  next
    case (SetTitle t)
    with assms show ?thesis by (auto simp: cursor_inv_def)
  next
    case (SetInvoiceNumber n)
    with assms show ?thesis by (auto simp: cursor_inv_def)
  next
    case (SetDate d)
    with assms show ?thesis by (auto simp: cursor_inv_def)
  next
    case Undo
    with assms show ?thesis
      by (auto simp: undo_def cursor_inv_def split: if_splits option.splits)
  next
    case Redo
    with assms show ?thesis
      by (auto simp: redo_def cursor_inv_def split: if_splits option.splits)
  qed
qed

lemma run_nonempty:
  assumes "nonempty_inv st" and "run ToNumber st evs = Inr st'"
  shows "nonempty_inv st'"
  using assms
proof (induction evs arbitrary: st)
  case Nil
  then show ?case by simp
next
  case (Cons ev evs)
  from Cons.prems(2) obtain s where s: "apply_op ToNumber st ev = Inr s"
    and r: "run ToNumber s evs = Inr st'"
    by (auto split: sum.splits)
  from apply_op_nonempty [OF Cons.prems(1) s] have "nonempty_inv s" .
  from Cons.IH [OF this r] show ?case .
qed

lemma apply_initialData_history:
  assumes "apply_initialData st0 j = Inr st" and "history st0 = []" and "historyIndex st0 = - 1"
  shows "history st = [\<lparr>h_items = items st, h_tax = tax st, h_discount = discount st\<rparr>]"
  using assms
  by (auto simp: apply_initialData_def Let_def saveHistory_eq js_slice_def last50_def
      split: json.splits)

lemma startup_nonempty:
  assumes "startup today data saved = Inr st" and "items st \<noteq> []"
  shows "nonempty_inv st"
proof -
  from assms(1) obtain j ls where "apply_initialData ((initial_state today)\<lparr>console := ls\<rparr>) j = Inr st"
    by (auto simp: startup_def split: sum.splits prod.splits)
  from apply_initialData_history [OF this]
  have "history st = [\<lparr>h_items = items st, h_tax = tax st, h_discount = discount st\<rparr>]"
    by (simp add: initial_state_def)
  with assms(2) show ?thesis by (simp add: nonempty_inv_def)
qed

text \<open>
  C7, as it holds: on a state with exactly one item \<open>removeItem\<close> returns the state as
  it is, for every index. With more than one item it removes the item at that index,
  appends a snapshot of the remaining items with the current tax and discount, and deletes
  the quantity and price messages of that index and no other message. Every event keeps
  the items list non-empty when the list and the lists kept in the log are non-empty, and
  so a session that starts with at least one item (the built-in defaults have one) has a
  non-empty items list after every event.
\<close>

theorem removeItem_behaviour:
  "(length (items st) = 1 \<longrightarrow> removeItem st idx = st)
   \<and> (1 < length (items st) \<longrightarrow>
        items (removeItem st idx) = take idx (items st) @ drop (Suc idx) (items st)
        \<and> last (history (removeItem st idx))
            = \<lparr>h_items = take idx (items st) @ drop (Suc idx) (items st),
               h_tax = tax st, h_discount = discount st\<rparr>
        \<and> (\<forall>k. map_of (errors (removeItem st idx)) k
                 = (if k = quantity_key idx \<or> k = price_key idx then None
                    else map_of (errors st) k))
        \<and> (\<forall>j. j \<noteq> idx \<longrightarrow>
                 map_of (errors (removeItem st idx)) (quantity_key j) = map_of (errors st) (quantity_key j)
               \<and> map_of (errors (removeItem st idx)) (price_key j) = map_of (errors st) (price_key j))
        \<and> objs (removeItem st idx) = objs st
        \<and> tax (removeItem st idx) = tax st
        \<and> discount (removeItem st idx) = discount st
        \<and> currency (removeItem st idx) = currency st
        \<and> title (removeItem st idx) = title st
        \<and> invoiceNumber (removeItem st idx) = invoiceNumber st
        \<and> date (removeItem st idx) = date st)
   \<and> (nonempty_inv st \<and> apply_op ToNumber st ev = Inr st' \<longrightarrow> nonempty_inv st')
   \<and> (startup today data saved = Inr st0 \<and> items st0 \<noteq> [] \<and> run ToNumber st0 evs = Inr st1
        \<longrightarrow> items st1 \<noteq> [])"
proof -
  have a: "length (items st) = 1 \<longrightarrow> removeItem st idx = st"
    by (simp add: removeItem_def)
  have b: "1 < length (items st) \<longrightarrow>
        items (removeItem st idx) = take idx (items st) @ drop (Suc idx) (items st)
        \<and> last (history (removeItem st idx))
            = \<lparr>h_items = take idx (items st) @ drop (Suc idx) (items st),
               h_tax = tax st, h_discount = discount st\<rparr>
        \<and> objs (removeItem st idx) = objs st
        \<and> tax (removeItem st idx) = tax st
        \<and> discount (removeItem st idx) = discount st
        \<and> currency (removeItem st idx) = currency st
        \<and> title (removeItem st idx) = title st
        \<and> invoiceNumber (removeItem st idx) = invoiceNumber st
        \<and> date (removeItem st idx) = date st"
    by (simp add: removeItem_many saveHistory_frame saveHistory_last)
  have c: "1 < length (items st) \<longrightarrow>
        (\<forall>k. map_of (errors (removeItem st idx)) k
                 = (if k = quantity_key idx \<or> k = price_key idx then None
                    else map_of (errors st) k))"
    using removeItem_errors [of st idx] by blast
  have d: "1 < length (items st) \<longrightarrow>
        (\<forall>j. j \<noteq> idx \<longrightarrow>
                 map_of (errors (removeItem st idx)) (quantity_key j) = map_of (errors st) (quantity_key j)
               \<and> map_of (errors (removeItem st idx)) (price_key j) = map_of (errors st) (price_key j))"
    by (simp add: removeItem_errors)
  have e: "nonempty_inv st \<and> apply_op ToNumber st ev = Inr st' \<longrightarrow> nonempty_inv st'"
    using apply_op_nonempty by blast
  have f: "startup today data saved = Inr st0 \<and> items st0 \<noteq> [] \<and> run ToNumber st0 evs = Inr st1
        \<longrightarrow> items st1 \<noteq> []"
  proof (intro impI)
    assume h: "startup today data saved = Inr st0 \<and> items st0 \<noteq> [] \<and> run ToNumber st0 evs = Inr st1"
    then have "nonempty_inv st0" using startup_nonempty by blast
    with h have "nonempty_inv st1" using run_nonempty by blast
    then show "items st1 \<noteq> []" by (simp add: nonempty_inv_def)
  qed
  from a b c d e f show ?thesis by blast
qed

lemma startup_defaults:
  "startup ''2026-01-01'' None None
     = Inr ((initial_state ''2026-01-01'')
          \<lparr>objs := [emptyItem, emptyItem], items := [1],
            history := [\<lparr>h_items = [1], h_tax = Num 0, h_discount = Num 0\<rparr>],
            historyIndex := 0\<rparr>)"
  by (simp add: startup_def read_initialData_def apply_initialData_def Let_def default_data_def
      initial_state_def saveHistory_def js_slice_def)

lemma session_sample:
  "run (\<lambda>s. NaN)
     ((initial_state ''2026-01-01'')
          \<lparr>objs := [emptyItem, emptyItem], items := [1],
            history := [\<lparr>h_items = [1], h_tax = Num 0, h_discount = Num 0\<rparr>],
            historyIndex := 0\<rparr>)
     [AddItem, RemoveItem 0, Undo]
   = Inr ((initial_state ''2026-01-01'')
          \<lparr>objs := [emptyItem, emptyItem, emptyItem], items := [1, 2],
            history := [\<lparr>h_items = [1], h_tax = Num 0, h_discount = Num 0\<rparr>,
                        \<lparr>h_items = [1, 2], h_tax = Num 0, h_discount = Num 0\<rparr>,
                        \<lparr>h_items = [2], h_tax = Num 0, h_discount = Num 0\<rparr>],
            historyIndex := 1\<rparr>)"
  by (simp add: addItem_def removeItem_def undo_def js_index_def Let_def initial_state_def
      saveHistory_def js_slice_def)

theorem removeItem_behaviour_witness:
  "length (items (initial_state ''2026-01-01'')) = 1
   \<and> removeItem (initial_state ''2026-01-01'') 0 = initial_state ''2026-01-01''
   \<and> 1 < length (items (addItem (initial_state ''2026-01-01'')))
   \<and> items (removeItem (addItem (initial_state ''2026-01-01'')) 0) = [1]
   \<and> nonempty_inv (addItem (initial_state ''2026-01-01''))
   \<and> apply_op (\<lambda>s. NaN) (addItem (initial_state ''2026-01-01'')) (RemoveItem 0)
        = Inr (removeItem (addItem (initial_state ''2026-01-01'')) 0)
   \<and> nonempty_inv (removeItem (addItem (initial_state ''2026-01-01'')) 0)
   \<and> (case startup ''2026-01-01'' None None of
        Inl e \<Rightarrow> False
      | Inr st0 \<Rightarrow>
          items st0 \<noteq> []
          \<and> (case run (\<lambda>s. NaN) st0 [AddItem, RemoveItem 0, Undo] of
               Inl e \<Rightarrow> False
             | Inr st1 \<Rightarrow> items st1 \<noteq> []))"
proof -
  let ?S0 = "(initial_state ''2026-01-01'')
          \<lparr>objs := [emptyItem, emptyItem], items := [1],
            history := [\<lparr>h_items = [1], h_tax = Num 0, h_discount = Num 0\<rparr>],
            historyIndex := 0\<rparr>"
  let ?S1 = "(initial_state ''2026-01-01'')
          \<lparr>objs := [emptyItem, emptyItem, emptyItem], items := [1, 2],
            history := [\<lparr>h_items = [1], h_tax = Num 0, h_discount = Num 0\<rparr>,
                        \<lparr>h_items = [1, 2], h_tax = Num 0, h_discount = Num 0\<rparr>,
                        \<lparr>h_items = [2], h_tax = Num 0, h_discount = Num 0\<rparr>],
            historyIndex := 1\<rparr>"
  have h1: "length (items (initial_state ''2026-01-01'')) = 1"
    by (simp add: initial_state_def)
  have h2: "1 < length (items (addItem (initial_state ''2026-01-01'')))"
    by (simp add: addItem_def initial_state_def Let_def saveHistory_frame)
  have h3: "nonempty_inv (addItem (initial_state ''2026-01-01''))"
    by (simp add: nonempty_inv_def addItem_def initial_state_def Let_def saveHistory_def js_slice_def)
  have h4: "apply_op (\<lambda>s. NaN) (addItem (initial_state ''2026-01-01'')) (RemoveItem 0)
        = Inr (removeItem (addItem (initial_state ''2026-01-01'')) 0)"
    by simp
  have i: "items (addItem (initial_state ''2026-01-01'')) = [0, 1]"
    by (simp add: addItem_def initial_state_def Let_def saveHistory_frame)
  have s0: "startup ''2026-01-01'' None None = Inr ?S0" by (rule startup_defaults)
  have i0: "items ?S0 \<noteq> []" by simp
  have r: "run (\<lambda>s. NaN) ?S0 [AddItem, RemoveItem 0, Undo] = Inr ?S1" by (rule session_sample)
  from removeItem_behaviour [where st = "initial_state ''2026-01-01''" and idx = 0] h1
  have c1: "removeItem (initial_state ''2026-01-01'') 0 = initial_state ''2026-01-01''"
    by blast
  from removeItem_behaviour [where st = "addItem (initial_state ''2026-01-01'')" and idx = 0
      and ToNumber = "\<lambda>s. NaN" and ev = "RemoveItem 0"
      and st' = "removeItem (addItem (initial_state ''2026-01-01'')) 0"
      and today = "''2026-01-01''" and data = None and saved = None and ?st0.0 = ?S0
      and evs = "[AddItem, RemoveItem 0, Undo]" and ?st1.0 = ?S1] h2 h3 h4 s0 i0 r
  have c2: "items (removeItem (addItem (initial_state ''2026-01-01'')) 0)
              = take 0 (items (addItem (initial_state ''2026-01-01'')))
                @ drop (Suc 0) (items (addItem (initial_state ''2026-01-01'')))"
    and c3: "nonempty_inv (removeItem (addItem (initial_state ''2026-01-01'')) 0)"
    and c4: "items ?S1 \<noteq> []"
    by blast+
  from c2 have c2': "items (removeItem (addItem (initial_state ''2026-01-01'')) 0) = [1]"
    by (simp add: i)
  have c5: "(case startup ''2026-01-01'' None None of
        Inl e \<Rightarrow> False
      | Inr st0 \<Rightarrow>
          items st0 \<noteq> []
          \<and> (case run (\<lambda>s. NaN) st0 [AddItem, RemoveItem 0, Undo] of
               Inl e \<Rightarrow> False
             | Inr st1 \<Rightarrow> items st1 \<noteq> []))"
    unfolding s0 sum.case r using i0 c4 by blast
  from h1 c1 h2 c2' h3 h4 c3 c5 show ?thesis by blast
qed

text \<open>
  C7 as it is written fails for a session that starts from a URL record with no items:
  nothing at startup checks the record, the items list is empty after startup, and after
  Add Item and Undo it is empty again.
\<close>

theorem startup_empty_items:
  "(case startup ''2026-01-01''
           (Some (Encoded (JObject \<lparr>d_items = [], d_tax = Num 0, d_discount = Num 0,
              d_currency = USD, d_title = ''Invoice'', d_invoiceNumber = ''INV-001'',
              d_date = ''2026-01-01''\<rparr>))) None of
      Inl e \<Rightarrow> False
    | Inr st \<Rightarrow>
        items st = []
        \<and> items (addItem st) \<noteq> []
        \<and> (case undo (addItem st) of Inl e \<Rightarrow> False | Inr st' \<Rightarrow> items st' = []))"
  by (simp add: startup_def read_initialData_def apply_initialData_def Let_def
      initial_state_def saveHistory_def js_slice_def addItem_def undo_def js_index_def)

text \<open>What updateItem leaves in the validation messages.\<close>

lemma updateItem_errors:
  assumes "updateItem ToNumber st idx f v = Inr st'"
  shows "map_of (errors st') k =
     (if k = quantity_key idx
      then (if f = Quantity \<and> js_lt (Number ToNumber v) (Num 1)
            then Some ''Quantity must be at least 1'' else None)
      else if k = price_key idx
      then (if f = Price \<and> js_lt (Number ToNumber v) (Num 0)
            then Some ''Price cannot be negative'' else None)
      else map_of (errors st) k)"
proof -
  from assms have "\<not> length (items st) \<le> idx"
    by (auto simp: updateItem_def Let_def split: if_splits)
  with assms show ?thesis
    by (auto simp: updateItem_def Let_def saveHistory_frame update_conv' delete_conv')
qed

text \<open>
  C5, as the code has it: first the price of item 0 is set to \<open>-5\<close>, which stores the
  message for \<open>price-0\<close>; then its quantity is set to \<open>2\<close>. The price is still
  \<open>-5\<close>, but the message for \<open>price-0\<close> is gone: the \<open>else\<close> branch that deletes
  a price message also runs when the edited field is not the price. The claim says that
  messages of fields other than the edited one are left unchanged.
\<close>

theorem updateItem_quantity_clears_price_error:
  "(case updateItem ToNumber (initial_state ''2026-01-01'') 0 Price (NumV (Num (- 5))) of
      Inl e \<Rightarrow> False
    | Inr st1 \<Rightarrow>
        price (objs st1 ! (items st1 ! 0)) = Num (- 5)
        \<and> map_of (errors st1) (price_key 0) = Some ''Price cannot be negative''
        \<and> (case updateItem ToNumber st1 0 Quantity (NumV (Num 2)) of
             Inl e \<Rightarrow> False
           | Inr st2 \<Rightarrow>
               price (objs st2 ! (items st2 ! 0)) = Num (- 5)
               \<and> map_of (errors st2) (price_key 0) = None))"
  by (simp add: updateItem_def Let_def initial_state_def saveHistory_frame write_field_def
      Number_def emptyItem_def)

section \<open>Startup\<close>

lemma map_nth_append_upt:
  "map (\<lambda>r. (xs @ ys) ! r) [length xs ..< length xs + length ys] = ys"
  by (rule nth_equalityI) (simp_all add: nth_append)

lemma apply_initialData_loaded:
  "loaded d (apply_initialData ((initial_state today)\<lparr>console := ls\<rparr>) (JObject d))"
  by (simp add: loaded_def apply_initialData_def Let_def invoice_of_def saveHistory_frame
      map_nth_append_upt)

lemma apply_initialData_cursor:
  assumes "apply_initialData st0 j = Inr st" and "history st0 = []" and "historyIndex st0 = - 1"
  shows "historyIndex st = 0 \<and> length (history st) = 1"
  using assms
  by (auto simp: apply_initialData_def Let_def saveHistory_eq js_slice_def last50_def
      split: json.splits)

lemma startup_cursor_inv:
  assumes "startup today data saved = Inr st"
  shows "cursor_inv st \<and> historyIndex st = 0 \<and> length (history st) = 1"
proof -
  from assms obtain j ls where "apply_initialData ((initial_state today)\<lparr>console := ls\<rparr>) j = Inr st"
    by (auto simp: startup_def split: sum.splits prod.splits)
  from apply_initialData_cursor [OF this]
  have "historyIndex st = 0 \<and> length (history st) = 1" by (simp add: initial_state_def)
  then show ?thesis by (simp add: cursor_inv_def)
qed

text \<open>The exceptions that leave the startup effect.\<close>

lemma startup_saved_malformed:
  "text_truthy data = None \<Longrightarrow> startup today data (Some Malformed) = Inl SyntaxError"
  by (simp add: startup_def read_initialData_def)

lemma startup_data_null:
  "startup today (Some (Encoded JNull)) saved = Inl TypeError"
  by (simp add: startup_def read_initialData_def apply_initialData_def)

text \<open>
  C3, as it holds: a non-empty \<open>data\<close> parameter decides alone. When it parses to a
  record the state is loaded from it; when it does not parse, the failure is caught,
  \<open>Invalid URL data\<close> is logged and the defaults are loaded. Without a \<open>data\<close>
  parameter, or with an empty one, the local snapshot is consulted: the defaults are
  loaded when it is absent, empty or \<open>null\<close>, and its record when it parses to one.
\<close>

theorem startup_sources:
  "loaded v (startup today (Some (Encoded (JObject v))) saved)
   \<and> loaded (default_data today) (startup today (Some Malformed) saved)
   \<and> (case startup today (Some Malformed) saved of
        Inl e \<Rightarrow> False | Inr st \<Rightarrow> console st = [''Invalid URL data''])
   \<and> (text_truthy data = None \<longrightarrow>
        (text_truthy saved = None \<longrightarrow> loaded (default_data today) (startup today data saved))
        \<and> (saved = Some (Encoded JNull) \<longrightarrow> loaded (default_data today) (startup today data saved))
        \<and> (saved = Some (Encoded (JObject v)) \<longrightarrow> loaded v (startup today data saved)))"
proof -
  have a: "loaded v (startup today (Some (Encoded (JObject v))) saved)"
    by (simp add: startup_def read_initialData_def apply_initialData_loaded)
  have b: "loaded (default_data today) (startup today (Some Malformed) saved)"
    by (simp add: startup_def read_initialData_def apply_initialData_loaded)
  have c: "(case startup today (Some Malformed) saved of
        Inl e \<Rightarrow> False | Inr st \<Rightarrow> console st = [''Invalid URL data''])"
    by (simp add: startup_def read_initialData_def apply_initialData_def Let_def saveHistory_frame)
  have d: "text_truthy data = None \<longrightarrow> text_truthy saved = None \<longrightarrow>
             loaded (default_data today) (startup today data saved)"
    by (simp add: startup_def read_initialData_def apply_initialData_loaded)
  have e: "text_truthy data = None \<longrightarrow> saved = Some (Encoded JNull) \<longrightarrow>
             loaded (default_data today) (startup today data saved)"
    by (simp add: startup_def read_initialData_def apply_initialData_loaded)
  have f: "text_truthy data = None \<longrightarrow> saved = Some (Encoded (JObject v)) \<longrightarrow>
             loaded v (startup today data saved)"
    by (simp add: startup_def read_initialData_def apply_initialData_loaded)
  from a b c d e f show ?thesis by blast
qed

theorem startup_sources_witness:
  "text_truthy (Some EmptyText) = None
   \<and> text_truthy None = None
   \<and> loaded (default_data ''2026-01-01'') (startup ''2026-01-01'' (Some EmptyText) None)
   \<and> loaded (default_data ''2026-01-01'') (startup ''2026-01-01'' None (Some (Encoded JNull)))
   \<and> loaded \<lparr>d_items = [\<lparr>description = Str ''A'', quantity = Num 2, price = Num 10\<rparr>],
            d_tax = Num 10, d_discount = Num 5, d_currency = EUR, d_title = ''Saved'',
            d_invoiceNumber = ''INV-007'', d_date = ''2025-12-24''\<rparr>
        (startup ''2026-01-01'' (Some EmptyText)
          (Some (Encoded (JObject \<lparr>d_items = [\<lparr>description = Str ''A'', quantity = Num 2, price = Num 10\<rparr>],
            d_tax = Num 10, d_discount = Num 5, d_currency = EUR, d_title = ''Saved'',
            d_invoiceNumber = ''INV-007'', d_date = ''2025-12-24''\<rparr>))))"
proof -
  let ?v = "\<lparr>d_items = [\<lparr>description = Str ''A'', quantity = Num 2, price = Num 10\<rparr>],
            d_tax = Num 10, d_discount = Num 5, d_currency = EUR, d_title = ''Saved'',
            d_invoiceNumber = ''INV-007'', d_date = ''2025-12-24''\<rparr>"
  have h1: "text_truthy (Some EmptyText) = None" and h2: "text_truthy None = None" by simp_all
  from startup_sources [of ?v "''2026-01-01''" None "Some EmptyText"] h1 h2
  have a: "loaded (default_data ''2026-01-01'') (startup ''2026-01-01'' (Some EmptyText) None)"
    by blast
  from startup_sources [of ?v "''2026-01-01''" "Some (Encoded JNull)" None] h2
  have b: "loaded (default_data ''2026-01-01'') (startup ''2026-01-01'' None (Some (Encoded JNull)))"
    by blast
  from startup_sources [of ?v "''2026-01-01''" "Some (Encoded (JObject ?v))" "Some EmptyText"] h1
  have c: "loaded ?v (startup ''2026-01-01'' (Some EmptyText) (Some (Encoded (JObject ?v))))"
    by blast
  from h1 h2 a b c show ?thesis by blast
qed

text \<open>
  C3 as it is written fails on two inputs. With an empty \<open>data\<close> parameter the URL has
  the parameter, yet the local snapshot is consulted and loaded. With no \<open>data\<close>
  parameter and a local snapshot that does not parse, nothing catches the syntax error:
  no state is loaded and nothing is logged.
\<close>

theorem startup_claim_fails:
  "\<not> spec_startup ''2026-01-01'' (Some EmptyText)
        (Some (Encoded (JObject \<lparr>d_items = [\<lparr>description = Str ''A'', quantity = Num 2, price = Num 10\<rparr>],
            d_tax = Num 10, d_discount = Num 5, d_currency = EUR, d_title = ''Saved'',
            d_invoiceNumber = ''INV-007'', d_date = ''2025-12-24''\<rparr>)))
   \<and> \<not> spec_startup ''2026-01-01'' None (Some Malformed)"
  by (simp add: spec_startup_def startup_def read_initialData_def apply_initialData_def Let_def
      loaded_def logged_def invoice_of_def saveHistory_frame default_data_def initial_state_def)

end
